theory Spec2Isabelle
  imports Complex_Main
begin

section \<open>Image editor: parameter snapshots and undo/redo history\<close>

text \<open>
  The editor of \<^verbatim>\<open>src/components/ImageEditor.tsx\<close> keeps three pieces of React state:
  the live parameters, the undo stack \<^verbatim>\<open>history\<close> and the redo stack \<^verbatim>\<open>future\<close>,
  plus the drag flag and the drag-start reference. Every numeric field of a snapshot is
  an integer in the program: the defaults are integer literals, the sliders store
  \<^verbatim>\<open>parseInt(e.target.value)\<close>, and the rotate button stores
  \<^verbatim>\<open>(rotation + 90) % 360\<close>. Each handler is modelled as one atomic transition from the
  state its closure was rendered with.
\<close>

record EditorParams =
  brightness :: int
  contrast :: int
  saturation :: int
  hue :: int
  vignette :: int
  grayscale :: bool
  sepia :: bool
  rotation :: int
  rotateX :: int
  rotateY :: int
  perspective :: int
  cameraShake :: int

text \<open>\<^verbatim>\<open>Partial<EditorParams>\<close>: every key may be absent.\<close>

record PartialParams =
  p_brightness :: "int option"
  p_contrast :: "int option"
  p_saturation :: "int option"
  p_hue :: "int option"
  p_vignette :: "int option"
  p_grayscale :: "bool option"
  p_sepia :: "bool option"
  p_rotation :: "int option"
  p_rotateX :: "int option"
  p_rotateY :: "int option"
  p_perspective :: "int option"
  p_cameraShake :: "int option"

definition no_change :: PartialParams where
  "no_change = \<lparr>p_brightness = None, p_contrast = None, p_saturation = None, p_hue = None,
     p_vignette = None, p_grayscale = None, p_sepia = None, p_rotation = None,
     p_rotateX = None, p_rotateY = None, p_perspective = None, p_cameraShake = None\<rparr>"

definition default_params :: EditorParams where
  "default_params = \<lparr>brightness = 100, contrast = 100, saturation = 100, hue = 0,
     vignette = 0, grayscale = False, sepia = False, rotation = 0, rotateX = 0,
     rotateY = 0, perspective = 1000, cameraShake = 0\<rparr>"

text \<open>The object spread \<^verbatim>\<open>{ ...prev, ...newParams }\<close>: a key of the partial wins.\<close>

definition spread :: "'a \<Rightarrow> 'a option \<Rightarrow> 'a" where
  "spread old new = (case new of None \<Rightarrow> old | Some v \<Rightarrow> v)"

definition merge :: "EditorParams \<Rightarrow> PartialParams \<Rightarrow> EditorParams" where
  "merge prev newParams =
     \<lparr>brightness = spread (brightness prev) (p_brightness newParams),
      contrast = spread (contrast prev) (p_contrast newParams),
      saturation = spread (saturation prev) (p_saturation newParams),
      hue = spread (hue prev) (p_hue newParams),
      vignette = spread (vignette prev) (p_vignette newParams),
      grayscale = spread (grayscale prev) (p_grayscale newParams),
      sepia = spread (sepia prev) (p_sepia newParams),
      rotation = spread (rotation prev) (p_rotation newParams),
      rotateX = spread (rotateX prev) (p_rotateX newParams),
      rotateY = spread (rotateY prev) (p_rotateY newParams),
      perspective = spread (perspective prev) (p_perspective newParams),
      cameraShake = spread (cameraShake prev) (p_cameraShake newParams)\<rparr>"

record Editor =
  params :: EditorParams
  history :: "EditorParams list"
  future :: "EditorParams list"
  isDragging :: bool
  dragStartParams :: "EditorParams option"

definition initial :: Editor where
  "initial = \<lparr>params = default_params, history = [], future = [], isDragging = False,
     dragStartParams = None\<rparr>"

definition updateParams :: "PartialParams \<Rightarrow> bool \<Rightarrow> Editor \<Rightarrow> Editor" where
  "updateParams newParams commit s =
     (let s' = (if commit then s\<lparr>history := history s @ [params s], future := []\<rparr> else s)
      in s'\<lparr>params := merge (params s') newParams\<rparr>)"

text \<open>
  \<^verbatim>\<open>history[history.length - 1]\<close> is \<^const>\<open>last\<close>, \<^verbatim>\<open>prev.slice(0, -1)\<close> is
  \<^const>\<open>butlast\<close>, \<^verbatim>\<open>future[0]\<close> is \<^const>\<open>hd\<close> and \<^verbatim>\<open>prev.slice(1)\<close> is
  \<^const>\<open>tl\<close>; each is read only behind the emptiness guard of the source.
\<close>

definition undo :: "Editor \<Rightarrow> Editor" where
  "undo s =
     (if length (history s) = 0 then s
      else let previous = last (history s)
           in s\<lparr>future := params s # future s, history := butlast (history s),
                params := previous\<rparr>)"

definition redo :: "Editor \<Rightarrow> Editor" where
  "redo s =
     (if length (future s) = 0 then s
      else let next = hd (future s)
           in s\<lparr>history := history s @ [params s], future := tl (future s),
                params := next\<rparr>)"

subsection \<open>Drag sessions and the structural comparison\<close>

text \<open>
  \<^verbatim>\<open>handleSliderEnd\<close> compares \<^verbatim>\<open>JSON.stringify(dragStartParams.current)\<close> with
  \<^verbatim>\<open>JSON.stringify(params)\<close>. Both objects carry the twelve keys in the order of the
  initial state (a spread keeps the key order of its first operand), integers print in
  decimal and booleans as \<^verbatim>\<open>true\<close>/\<^verbatim>\<open>false\<close>.
\<close>

definition digit_char :: "nat \<Rightarrow> char" where
  "digit_char d = ''0123456789'' ! d"

fun digits :: "nat \<Rightarrow> string" where
  "digits n = (if n < 10 then [digit_char n] else digits (n div 10) @ [digit_char (n mod 10)])"

declare digits.simps [simp del]

definition Number_toString :: "int \<Rightarrow> string" where
  "Number_toString i = (if i < 0 then CHR ''-'' # digits (nat (- i)) else digits (nat i))"

definition Boolean_toString :: "bool \<Rightarrow> string" where
  "Boolean_toString b = (if b then ''true'' else ''false'')"

definition JSON_stringify :: "EditorParams \<Rightarrow> string" where
  \<open>JSON_stringify p =
     ''{"brightness":'' @ Number_toString (brightness p) @
     '',"contrast":'' @ Number_toString (contrast p) @
     '',"saturation":'' @ Number_toString (saturation p) @
     '',"hue":'' @ Number_toString (hue p) @
     '',"vignette":'' @ Number_toString (vignette p) @
     '',"grayscale":'' @ Boolean_toString (grayscale p) @
     '',"sepia":'' @ Boolean_toString (sepia p) @
     '',"rotation":'' @ Number_toString (rotation p) @
     '',"rotateX":'' @ Number_toString (rotateX p) @
     '',"rotateY":'' @ Number_toString (rotateY p) @
     '',"perspective":'' @ Number_toString (perspective p) @
     '',"cameraShake":'' @ Number_toString (cameraShake p) @ ''}''\<close>

definition handleSliderStart :: "Editor \<Rightarrow> Editor" where
  "handleSliderStart s = s\<lparr>isDragging := True, dragStartParams := Some (params s)\<rparr>"

definition handleSliderEnd :: "Editor \<Rightarrow> Editor" where
  "handleSliderEnd s =
     (let s' = s\<lparr>isDragging := False\<rparr>
      in case dragStartParams s' of
           None \<Rightarrow> s'
         | Some start \<Rightarrow>
             (let hasChanged = (JSON_stringify start \<noteq> JSON_stringify (params s'))
              in if hasChanged then s'\<lparr>history := history s' @ [start], future := []\<rparr>
                 else s'))"

text \<open>
  A drag up to (not including) the release: the press, then one uncommitted
  \<^verbatim>\<open>onChange\<close> update per tick of the slider.
\<close>

definition drag :: "PartialParams list \<Rightarrow> Editor \<Rightarrow> Editor" where
  "drag ticks s = foldl (\<lambda>s' p. updateParams p False s') (handleSliderStart s) ticks"

text \<open>
  The two ways the editor commits an edit: a button (\<^verbatim>\<open>updateParams(p, true)\<close>) and a
  whole slider drag closed by \<^verbatim>\<open>handleSliderEnd\<close>.
\<close>

datatype edit = Commit PartialParams | Drag "PartialParams list"

fun apply_edit :: "Editor \<Rightarrow> edit \<Rightarrow> Editor" where
  "apply_edit s (Commit p) = updateParams p True s"
| "apply_edit s (Drag ticks) = handleSliderEnd (drag ticks s)"

definition apply_edits :: "edit list \<Rightarrow> Editor \<Rightarrow> Editor" where
  "apply_edits es s = foldl apply_edit s es"

text \<open>Helpers of the proofs about the decimal rendering (not part of the program).\<close>

definition numch :: "char \<Rightarrow> bool" where
  "numch c = (c \<in> set ''-0123456789'')"

definition digit_val :: "char \<Rightarrow> nat" where
  "digit_val c = length (takeWhile (\<lambda>x. x \<noteq> c) ''0123456789'')"

section \<open>Image editor: preview render and export\<close>

text \<open>
  JavaScript numbers that take fractional values (\<^verbatim>\<open>width / 2\<close>, the aspect-ratio
  quotients, \<^verbatim>\<open>Math.sqrt\<close>) are modelled as exact reals.
\<close>

record ColorStop =
  offset :: real
  color :: string
  alpha :: real

record RadialGradient =
  x0 :: real
  y0 :: real
  r0 :: real
  x1 :: real
  y1 :: real
  r1 :: real
  stops :: "ColorStop list"

record Preview =
  preview_width :: int
  preview_height :: int
  ctx_filter :: string
  vignette_fill :: "RadialGradient option"

text \<open>
  \<^verbatim>\<open>applyChanges\<close> once the image has loaded with size \<open>img_width \<times> img_height\<close>: the
  filter string under which the image is drawn, and the gradient (if any) that fills the
  whole canvas afterwards. A stop \<open>\<lparr>offset, color, alpha\<rparr>\<close> stands for
  \<^verbatim>\<open>addColorStop(offset, `rgba(${color}, ${alpha})`)\<close>.
\<close>

definition applyChanges :: "EditorParams \<Rightarrow> int \<Rightarrow> int \<Rightarrow> Preview" where
  "applyChanges p img_width img_height =
     (let filters = ''brightness('' @ Number_toString (brightness p) @ ''%) contrast(''
            @ Number_toString (contrast p) @ ''%) saturate(''
            @ Number_toString (saturation p) @ ''%) hue-rotate(''
            @ Number_toString (hue p) @ ''deg)'';
          filters = (if grayscale p then filters @ '' grayscale(100%)'' else filters);
          filters = (if sepia p then filters @ '' sepia(100%)'' else filters);
          fill =
            (if vignette p \<noteq> 0 then
               (let centerX = real_of_int img_width / 2;
                    centerY = real_of_int img_height / 2;
                    outerRadius = sqrt (centerX ^ 2 + centerY ^ 2);
                    colour = (if vignette p > 0 then ''0, 0, 0'' else ''255, 255, 255'');
                    opacity = real_of_int \<bar>vignette p\<bar> / 100
                in Some \<lparr>x0 = centerX, y0 = centerY, r0 = 0,
                          x1 = centerX, y1 = centerY, r1 = outerRadius,
                          stops = [\<lparr>offset = 0.4, color = colour, alpha = 0\<rparr>,
                                   \<lparr>offset = 1, color = colour, alpha = opacity\<rparr>]\<rparr>)
             else None)
      in \<lparr>preview_width = img_width, preview_height = img_height, ctx_filter = filters,
          vignette_fill = fill\<rparr>)"

datatype AspectRatio = Ratio_16_9 | Ratio_9_16

text \<open>
  The JavaScript remainder \<^verbatim>\<open>x % y\<close> (the quotient is truncated towards zero), and the
  conversion of a number assigned to \<^verbatim>\<open>canvas.width\<close>, an \<^verbatim>\<open>unsigned long\<close>: truncate,
  then reduce modulo \<open>2\<^sup>3\<^sup>2\<close>.
\<close>

definition js_trunc :: "real \<Rightarrow> int" where
  "js_trunc x = (if x < 0 then \<lceil>x\<rceil> else \<lfloor>x\<rfloor>)"

definition js_rem :: "real \<Rightarrow> real \<Rightarrow> real" where
  "js_rem x y = x - y * real_of_int (js_trunc (x / y))"

definition unsigned_long :: "real \<Rightarrow> int" where
  "unsigned_long x = js_trunc x mod 2 ^ 32"

record FinalCanvas =
  final_width :: int
  final_height :: int

text \<open>
  \<^verbatim>\<open>handleSave\<close>, for a preview canvas of size \<open>canvas_width \<times> canvas_height\<close>: the size
  given to the export canvas, whose PNG encoding is what \<^verbatim>\<open>onSave\<close> receives.
\<close>

definition handleSave :: "AspectRatio \<Rightarrow> EditorParams \<Rightarrow> int \<Rightarrow> int \<Rightarrow> FinalCanvas" where
  "handleSave aspectRatio p canvas_width canvas_height =
     (let (wRatio, hRatio) =
            (case aspectRatio of Ratio_16_9 \<Rightarrow> (16, 9) | Ratio_9_16 \<Rightarrow> (9, 16));
          isVertical = (js_rem (real_of_int (rotation p) / 90) 2 \<noteq> 0);
          baseW = real_of_int (if isVertical then canvas_height else canvas_width);
          baseH = real_of_int (if isVertical then canvas_width else canvas_height);
          finalWidth = baseW;
          finalHeight = (baseW * hRatio) / wRatio;
          (finalWidth, finalHeight) =
            (if finalHeight > baseH then ((baseH * wRatio) / hRatio, baseH)
             else (finalWidth, finalHeight))
      in \<lparr>final_width = unsigned_long finalWidth, final_height = unsigned_long finalHeight\<rparr>)"

section \<open>Dashboard: prompt composer\<close>

text \<open>
  The tables of the dashboard (\<^verbatim>\<open>src/unnamed/part_000\<close>), without the icon and
  description columns, which the composer never reads.
\<close>

record CamAngle =
  angle_id :: string
  angle_name :: string
  keyword :: string

record Named =
  entry_id :: string
  name :: string

definition ADVANCED_CAM_ANGLES :: "CamAngle list" where
  "ADVANCED_CAM_ANGLES =
     [\<lparr>angle_id = ''wide'', angle_name = ''Wide Angle'',
       keyword = ''captured from a sprawling wide-angle perspective''\<rparr>,
      \<lparr>angle_id = ''closeup'', angle_name = ''Close Up'',
       keyword = ''framed in an intimate close-up shot with extreme detail''\<rparr>,
      \<lparr>angle_id = ''birdseye'', angle_name = ''Bird's Eye'',
       keyword = ''from a high-altitude bird's eye view looking straight down''\<rparr>,
      \<lparr>angle_id = ''lowangle'', angle_name = ''Low Angle'',
       keyword = ''filmed from a dramatic low-angle perspective looking upward''\<rparr>,
      \<lparr>angle_id = ''pov'', angle_name = ''POV'',
       keyword = ''from a first-person point-of-view perspective''\<rparr>]"

definition ADVANCED_MOTION :: "Named list" where
  "ADVANCED_MOTION =
     [\<lparr>entry_id = ''pan'', name = ''Smooth Pan''\<rparr>,
      \<lparr>entry_id = ''tilt'', name = ''Vertical Tilt''\<rparr>,
      \<lparr>entry_id = ''zoomin'', name = ''Zoom In''\<rparr>,
      \<lparr>entry_id = ''zoomout'', name = ''Zoom Out''\<rparr>,
      \<lparr>entry_id = ''orbit'', name = ''360 Orbit''\<rparr>,
      \<lparr>entry_id = ''dolly'', name = ''Dolly Push''\<rparr>]"

definition ADVANCED_ATMOSPHERE :: "Named list" where
  "ADVANCED_ATMOSPHERE =
     [\<lparr>entry_id = ''volumetric'', name = ''Volumetric''\<rparr>,
      \<lparr>entry_id = ''neon'', name = ''Neon Glow''\<rparr>,
      \<lparr>entry_id = ''fog'', name = ''Ethereal Fog''\<rparr>,
      \<lparr>entry_id = ''rain'', name = ''Heavy Rain''\<rparr>,
      \<lparr>entry_id = ''golden'', name = ''Golden Hour''\<rparr>,
      \<lparr>entry_id = ''monochrome'', name = ''Film Noir''\<rparr>]"

text \<open>
  A value that may be \<^verbatim>\<open>undefined\<close> (the result of \<^verbatim>\<open>find(...)?.field\<close>) prints as
  the word in a template literal and as the empty string under \<^verbatim>\<open>Array.join\<close>.
\<close>

definition interpolate :: "string option \<Rightarrow> string" where
  "interpolate v = (case v of None \<Rightarrow> ''undefined'' | Some t \<Rightarrow> t)"

fun join :: "string \<Rightarrow> string option list \<Rightarrow> string" where
  "join sep [] = []"
| "join sep [v] = (case v of None \<Rightarrow> [] | Some t \<Rightarrow> t)"
| "join sep (v # vs) = (case v of None \<Rightarrow> [] | Some t \<Rightarrow> t) @ sep @ join sep vs"

text \<open>
  \<^verbatim>\<open>String.prototype.trim\<close> over the code units a \<^typ>\<open>char\<close> can hold: the ASCII
  white space and line terminators, and the no-break space. The speed is a JavaScript
  number, modelled as an exact real, and the thresholds \<^verbatim>\<open>0.6\<close> and \<^verbatim>\<open>1.4\<close> as the
  decimals they are written as.
\<close>

definition isWhiteSpace :: "char \<Rightarrow> bool" where
  "isWhiteSpace c =
     (c \<in> set [CHR 0x09, CHR 0x0A, CHR 0x0B, CHR 0x0C, CHR 0x0D, CHR 0x20, CHR 0xA0])"

definition trim :: "string \<Rightarrow> string" where
  "trim t = dropWhile isWhiteSpace (rev (dropWhile isWhiteSpace (rev t)))"

record PromptInputs =
  prompt :: string
  isAdvancedMode :: bool
  camAngle :: string
  motionType :: string
  atmosphere :: "string list"
  speed :: real
  motionBlur :: bool
  stabilization :: bool

definition speedInstruction :: "real \<Rightarrow> string" where
  "speedInstruction sp =
     (if sp \<le> 0.6 then '' The animation should be very slow, deliberate, and serene.''
      else if sp \<ge> 1.4 then '' The animation should be fast-paced, high-energy, and dynamic.''
      else [])"

definition advancedClause :: "PromptInputs \<Rightarrow> string" where
  "advancedClause i =
     (let angleKeyword =
            map_option keyword (find (\<lambda>a. angle_id a = camAngle i) ADVANCED_CAM_ANGLES);
          motion = map_option name (find (\<lambda>m. entry_id m = motionType i) ADVANCED_MOTION);
          atmosphereStr =
            (if length (atmosphere i) > 0
             then '' with ''
               @ join '', ''
                   (map (\<lambda>a. map_option name (find (\<lambda>entry. entry_id entry = a) ADVANCED_ATMOSPHERE))
                      (atmosphere i))
               @ '' atmospheric effects''
             else [])
      in ''. Scene '' @ interpolate angleKeyword @ ''. The animation uses a ''
           @ interpolate motion @ '' movement style'' @ atmosphereStr @ ''.'')"

definition enginePrompt :: "PromptInputs \<Rightarrow> string" where
  "enginePrompt i =
     (let final = prompt i;
          final = (if isAdvancedMode i then final @ advancedClause i else final);
          final = final @ '' '' @ speedInstruction (speed i);
          final = (if motionBlur i then final @ '' Apply realistic cinematic motion blur.''
                   else final);
          final = (if stabilization i
                   then final @ '' Ensure perfectly stabilized, jitter-free camera movement.''
                   else final)
      in trim final)"

section \<open>Dashboard: generation job\<close>

definition LOADING_MESSAGES :: "string list" where
  "LOADING_MESSAGES =
     [''Analyzing your frames...'',
      ''Synthesizing background textures...'',
      ''Applying temporal coherence...'',
      ''Gemini is dreaming up your video...'',
      ''Optimizing cinematic motion...'',
      ''Finalizing rendering pass...'']"

record GenerationState =
  isGenerating :: bool
  status :: string
  progress :: int
  error :: "string option"
  videoUrl :: "string option"

text \<open>
  What the backend hands back. An operation is read only through \<^verbatim>\<open>operation.done\<close> and
  \<^verbatim>\<open>operation.response?.generatedVideos?.[0]?.video?.uri\<close>; every link of that chain may
  be missing.
\<close>

record Video =
  uri :: "string option"

record GeneratedVideo =
  video :: "Video option"

record VideosResponse =
  generatedVideos :: "GeneratedVideo list option"

record Operation =
  op_done :: bool
  response :: "VideosResponse option"

text \<open>
  A thrown value, as the \<^verbatim>\<open>catch\<close> block reads it. It is \<^verbatim>\<open>null\<close> or \<^verbatim>\<open>undefined\<close>
  (\<open>Nullish\<close>), or any other value, given by its \<^verbatim>\<open>message\<close> property: missing or
  nullish (\<open>Absent\<close>), a string, or a value of another kind (\<open>NonString\<close>: a number, a
  boolean, an object with no \<^verbatim>\<open>includes\<close> method).
\<close>

datatype message = Absent | Str string | NonString

datatype js_error = Nullish | JsError message

text \<open>
  One run of \<^verbatim>\<open>generateVideo\<close> sees the backend through three awaited calls: the
  submission, the successive polls (the list holds the answers received so far, in order),
  and the download of the asset (resolved to the object URL, or thrown).
\<close>

record Backend =
  generateVideos :: "js_error + Operation"
  getVideosOperation :: "(js_error + Operation) list"
  fetch_blob :: "js_error + string"

datatype effect =
    Alert string
  | SetGenState GenerationState
  | CallGenerateVideos
  | Sleep
  | CallGetVideosOperation
  | CallFetch string
  | ConsoleError
  | OnResetKey

datatype loop_exit = LoopDone Operation | LoopThrew js_error | LoopWaiting

datatype outcome = Rejected | Waiting | Succeeded | Failed | ReturnedSilently | CatchThrew

record Run =
  outcome :: outcome
  genState :: GenerationState
  effects :: "effect list"

text \<open>JavaScript truthiness of a string that may be \<^verbatim>\<open>null\<close> or \<^verbatim>\<open>undefined\<close>.\<close>

definition truthy :: "string option \<Rightarrow> bool" where
  "truthy v = (case v of None \<Rightarrow> False | Some t \<Rightarrow> t \<noteq> [])"

fun String_includes :: "string \<Rightarrow> string \<Rightarrow> bool" where
  "String_includes [] t = (t = [])"
| "String_includes (x # xs) t = (take (length t) (x # xs) = t \<or> String_includes xs t)"

definition downloadLink :: "Operation \<Rightarrow> string option" where
  "downloadLink operation =
     (case response operation of
        None \<Rightarrow> None
      | Some r \<Rightarrow>
          (case generatedVideos r of
             None \<Rightarrow> None
           | Some [] \<Rightarrow> None
           | Some (g # _) \<Rightarrow> (case video g of None \<Rightarrow> None | Some v \<Rightarrow> uri v)))"

text \<open>
  The \<^verbatim>\<open>while (!operation.done)\<close> loop. Each round sleeps, advances the message index,
  applies the functional state update and awaits the next poll; a poll that throws leaves
  the loop. When the answers received so far are used up and the operation is still not
  done, the run is waiting on the backend (\<^const>\<open>LoopWaiting\<close>).
\<close>

fun poll_loop ::
  "Operation \<Rightarrow> nat \<Rightarrow> GenerationState \<Rightarrow> (js_error + Operation) list
   \<Rightarrow> loop_exit \<times> GenerationState \<times> effect list" where
  "poll_loop operation messageIndex g [] =
     (if op_done operation then (LoopDone operation, g, []) else (LoopWaiting, g, []))"
| "poll_loop operation messageIndex g (answer # answers) =
     (if op_done operation then (LoopDone operation, g, [])
      else
        (let messageIndex = (messageIndex + 1) mod length LOADING_MESSAGES;
             g = g\<lparr>status := LOADING_MESSAGES ! messageIndex,
                    progress := min (progress g + 15) 95\<rparr>;
             round = [Sleep, SetGenState g, CallGetVideosOperation]
         in case answer of
              Inl err \<Rightarrow> (LoopThrew err, g, round)
            | Inr operation \<Rightarrow>
                (case poll_loop operation messageIndex g answers of
                   (exit, g', es) \<Rightarrow> (exit, g', round @ es))))"

text \<open>
  The state object set on submission, and the \<^verbatim>\<open>try\<close> block: it either completes
  with a run, or throws, after some effects and in some job state, the value the
  \<^verbatim>\<open>catch\<close> block receives.
  \<^const>\<open>CallFetch\<close> carries the download link (the request appends the API key to it).
\<close>

definition submitted :: GenerationState where
  "submitted = \<lparr>isGenerating = True, status = LOADING_MESSAGES ! 0, progress = 0,
     error = None, videoUrl = None\<rparr>"

definition try_block :: "Backend \<Rightarrow> (js_error \<times> GenerationState \<times> effect list) + Run" where
  "try_block backend =
     (case generateVideos backend of
        Inl err \<Rightarrow> Inl (err, submitted, [CallGenerateVideos])
      | Inr operation \<Rightarrow>
          (case poll_loop operation 0 submitted (getVideosOperation backend) of
             (LoopWaiting, g, polled) \<Rightarrow>
               Inr \<lparr>outcome = Waiting, genState = g, effects = CallGenerateVideos # polled\<rparr>
           | (LoopThrew err, g, polled) \<Rightarrow> Inl (err, g, CallGenerateVideos # polled)
           | (LoopDone operation, g, polled) \<Rightarrow>
               (if truthy (downloadLink operation)
                then
                  (let link = the (downloadLink operation);
                       es = CallGenerateVideos # polled @ [CallFetch link]
                   in case fetch_blob backend of
                        Inl err \<Rightarrow> Inl (err, g, es)
                      | Inr url \<Rightarrow>
                          (let g = \<lparr>isGenerating = False, status = ''Generation complete!'',
                                     progress = 100, error = None, videoUrl = Some url\<rparr>
                           in Inr \<lparr>outcome = Succeeded, genState = g,
                                   effects = es @ [SetGenState g]\<rparr>))
                else Inr \<lparr>outcome = ReturnedSilently, genState = g,
                          effects = CallGenerateVideos # polled\<rparr>)))"

text \<open>
  The \<^verbatim>\<open>catch\<close> block, entered with the thrown value in job state \<open>g\<close>. It reads
  \<^verbatim>\<open>err.message?.includes(...)\<close> with no guard on \<^verbatim>\<open>err\<close>: on \<^verbatim>\<open>null\<close> or
  \<^verbatim>\<open>undefined\<close> the property read throws, and on a message that is not a string the
  call of \<^verbatim>\<open>includes\<close> throws. The block then ends there, after the console log: the
  key is not reset, no state is set, and the promise of the run rejects
  (\<^const>\<open>CatchThrew\<close>). \<open>message_includes\<close> is \<open>None\<close> in exactly these cases.
  \<open>message_or\<close> is \<^verbatim>\<open>err.message || fallback\<close>, which is reached only after that.
\<close>

definition message_includes :: "js_error \<Rightarrow> string \<Rightarrow> bool option" where
  "message_includes err t =
     (case err of
        Nullish \<Rightarrow> None
      | JsError Absent \<Rightarrow> Some False
      | JsError (Str m) \<Rightarrow> Some (String_includes m t)
      | JsError NonString \<Rightarrow> None)"

definition message_or :: "js_error \<Rightarrow> string \<Rightarrow> string" where
  "message_or err fallback =
     (case err of JsError (Str m) \<Rightarrow> (if m = [] then fallback else m) | _ \<Rightarrow> fallback)"

definition catch_block :: "js_error \<Rightarrow> GenerationState \<Rightarrow> Run" where
  "catch_block err g =
     (case message_includes err ''Requested entity was not found.'' of
        None \<Rightarrow> \<lparr>outcome = CatchThrew, genState = g, effects = [ConsoleError]\<rparr>
      | Some reset \<Rightarrow>
          (let g = \<lparr>isGenerating = False, status = ''Error'', progress = 0,
                     error = Some (message_or err ''An unexpected error occurred.''),
                     videoUrl = None\<rparr>
           in \<lparr>outcome = Failed, genState = g,
               effects = [ConsoleError] @ (if reset then [OnResetKey] else [])
                         @ [SetGenState g]\<rparr>))"

definition generateVideo :: "string option \<Rightarrow> Backend \<Rightarrow> GenerationState \<Rightarrow> Run" where
  "generateVideo startImage backend g =
     (if \<not> truthy startImage
      then \<lparr>outcome = Rejected, genState = g,
            effects = [Alert ''Please upload at least one starting image.'']\<rparr>
      else
        (case try_block backend of
           Inr r \<Rightarrow> r\<lparr>effects := SetGenState submitted # effects r\<rparr>
         | Inl (err, g', es) \<Rightarrow>
             (let r = catch_block err g'
              in r\<lparr>effects := SetGenState submitted # es @ effects r\<rparr>)))"

text \<open>Views of a run used to state its properties: the states set, in order.\<close>

fun shown :: "effect list \<Rightarrow> GenerationState list" where
  "shown [] = []"
| "shown (SetGenState g # es) = g # shown es"
| "shown (e # es) = shown es"

text \<open>The job state the dashboard starts with (\<^verbatim>\<open>useState<GenerationState>\<close>).\<close>

definition idle :: GenerationState where
  "idle = \<lparr>isGenerating = False, status = [], progress = 0, error = None, videoUrl = None\<rparr>"

subsection \<open>Concrete backends for the worked examples\<close>

definition pending :: Operation where
  "pending = \<lparr>op_done = False, response = None\<rparr>"

definition finished_with :: "string option \<Rightarrow> Operation" where
  "finished_with link =
     \<lparr>op_done = True,
      response = Some \<lparr>generatedVideos = Some [\<lparr>video = Some \<lparr>uri = link\<rparr>\<rparr>]\<rparr>\<rparr>"

definition slow_backend :: Backend where
  "slow_backend = \<lparr>generateVideos = Inr pending,
     getVideosOperation =
       [Inr pending, Inr pending, Inr pending, Inr pending, Inr pending, Inr pending,
        Inr pending, Inr pending],
     fetch_blob = Inr ''blob:1''\<rparr>"

definition good_backend :: Backend where
  "good_backend = \<lparr>generateVideos = Inr pending,
     getVideosOperation =
       [Inr pending, Inr (finished_with (Some ''https://host/video?alt=media''))],
     fetch_blob = Inr ''blob:1''\<rparr>"

definition unlinked_backend :: Backend where
  "unlinked_backend = \<lparr>generateVideos = Inr pending,
     getVideosOperation = [Inr pending, Inr (finished_with None)],
     fetch_blob = Inr ''blob:1''\<rparr>"

definition entity_error :: js_error where
  "entity_error = JsError (Str ''404: Requested entity was not found. Check the key.'')"

definition failing_backend :: "js_error \<Rightarrow> Backend" where
  "failing_backend err = \<lparr>generateVideos = Inr pending,
     getVideosOperation = [Inr pending, Inl err], fetch_blob = Inr ''blob:1''\<rparr>"

section \<open>Verified properties of the editor\<close>

text \<open>
  C3: for every editor state and every partial update. Called with commit, the update
  appends the live snapshot as it was before the merge to the end of the undo stack and
  empties the redo stack; called without commit, it leaves both stacks as they were. In
  both cases the new live parameters are the old ones with the partial merged in: every
  key the partial carries takes the partial's value, and every key it lacks keeps the
  value it had.
\<close>

theorem updateParams_commit_contract:
  "history (updateParams newParams True s) = history s @ [params s]
   \<and> future (updateParams newParams True s) = []
   \<and> params (updateParams newParams True s) = merge (params s) newParams
   \<and> history (updateParams newParams False s) = history s
   \<and> future (updateParams newParams False s) = future s
   \<and> params (updateParams newParams False s) = merge (params s) newParams
   \<and> brightness (params (updateParams newParams commit s))
       = (case p_brightness newParams of None \<Rightarrow> brightness (params s) | Some v \<Rightarrow> v)
   \<and> contrast (params (updateParams newParams commit s))
       = (case p_contrast newParams of None \<Rightarrow> contrast (params s) | Some v \<Rightarrow> v)
   \<and> saturation (params (updateParams newParams commit s))
       = (case p_saturation newParams of None \<Rightarrow> saturation (params s) | Some v \<Rightarrow> v)
   \<and> hue (params (updateParams newParams commit s))
       = (case p_hue newParams of None \<Rightarrow> hue (params s) | Some v \<Rightarrow> v)
   \<and> vignette (params (updateParams newParams commit s))
       = (case p_vignette newParams of None \<Rightarrow> vignette (params s) | Some v \<Rightarrow> v)
   \<and> grayscale (params (updateParams newParams commit s))
       = (case p_grayscale newParams of None \<Rightarrow> grayscale (params s) | Some v \<Rightarrow> v)
   \<and> sepia (params (updateParams newParams commit s))
       = (case p_sepia newParams of None \<Rightarrow> sepia (params s) | Some v \<Rightarrow> v)
   \<and> rotation (params (updateParams newParams commit s))
       = (case p_rotation newParams of None \<Rightarrow> rotation (params s) | Some v \<Rightarrow> v)
   \<and> rotateX (params (updateParams newParams commit s))
       = (case p_rotateX newParams of None \<Rightarrow> rotateX (params s) | Some v \<Rightarrow> v)
   \<and> rotateY (params (updateParams newParams commit s))
       = (case p_rotateY newParams of None \<Rightarrow> rotateY (params s) | Some v \<Rightarrow> v)
   \<and> perspective (params (updateParams newParams commit s))
       = (case p_perspective newParams of None \<Rightarrow> perspective (params s) | Some v \<Rightarrow> v)
   \<and> cameraShake (params (updateParams newParams commit s))
       = (case p_cameraShake newParams of None \<Rightarrow> cameraShake (params s) | Some v \<Rightarrow> v)"
proof -
  have stacks: "history (updateParams newParams True s) = history s @ [params s]"
    "future (updateParams newParams True s) = []"
    "history (updateParams newParams False s) = history s"
    "future (updateParams newParams False s) = future s"
    by (simp_all add: updateParams_def)
  have merged: "params (updateParams newParams commit s) = merge (params s) newParams"
    for commit
    by (simp add: updateParams_def)
  have keys: "spread old new = (case new of None \<Rightarrow> old | Some v \<Rightarrow> v)"
    for old :: 'a and new
    by (simp add: spread_def)
  show ?thesis
    unfolding merged stacks by (simp add: merge_def keys)
qed

subsection \<open>Decimal rendering and the comparison of snapshots\<close>

lemma below_ten: "d < 10 \<Longrightarrow> d \<in> {0, 1, 2, 3, 4, 5, 6, 7, 8, 9::nat}"
  by auto

lemma digit_val_digit_char: "d < 10 \<Longrightarrow> digit_val (digit_char d) = d"
  by (drule below_ten) (auto simp: digit_val_def digit_char_def)

lemma numch_digit_char: "d < 10 \<Longrightarrow> numch (digit_char d)"
  by (drule below_ten) (auto simp: numch_def digit_char_def)

lemma digit_char_not_minus: "d < 10 \<Longrightarrow> digit_char d \<noteq> CHR ''-''"
  by (drule below_ten) (auto simp: digit_char_def)

lemma read_digits: "foldl (\<lambda>a c. 10 * a + digit_val c) 0 (digits n) = n"
proof (induction n rule: digits.induct)
  case (1 n)
  show ?case
  proof (cases "n < 10")
    case True
    then show ?thesis by (simp add: digits.simps [of n] digit_val_digit_char)
  next
    case False
    with 1 show ?thesis by (simp add: digits.simps [of n] digit_val_digit_char)
  qed
qed

lemma digits_inj: "digits n = digits m \<Longrightarrow> n = m"
  by (metis read_digits)

lemma digits_numch: "\<forall>c\<in>set (digits n). numch c"
proof (induction n rule: digits.induct)
  case (1 n)
  show ?case
  proof (cases "n < 10")
    case True
    then show ?thesis by (simp add: digits.simps [of n] numch_digit_char)
  next
    case False
    with 1 show ?thesis by (simp add: digits.simps [of n] numch_digit_char)
  qed
qed

lemma hd_digits: "\<exists>d r. d < 10 \<and> digits n = digit_char d # r"
proof (induction n rule: digits.induct)
  case (1 n)
  show ?case
  proof (cases "n < 10")
    case True
    then show ?thesis by (auto simp add: digits.simps [of n])
  next
    case False
    with 1 obtain d r where "d < 10" "digits (n div 10) = digit_char d # r" by blast
    with False show ?thesis by (auto simp add: digits.simps [of n])
  qed
qed

lemma digits_not_minus: "digits n \<noteq> CHR ''-'' # r"
proof
  assume a: "digits n = CHR ''-'' # r"
  obtain d r' where d: "d < 10" "digits n = digit_char d # r'"
    using hd_digits [of n] by blast
  from a d have "digit_char d = CHR ''-''" by simp
  with digit_char_not_minus [OF d(1)] show False by simp
qed

lemma Number_toString_inj: "(Number_toString x = Number_toString y) = (x = y)"
proof
  assume eq: "Number_toString x = Number_toString y"
  show "x = y"
  proof (cases "x < 0"; cases "y < 0")
    assume "x < 0" "y < 0"
    with eq have "nat (- x) = nat (- y)" by (simp add: Number_toString_def digits_inj)
    with \<open>x < 0\<close> \<open>y < 0\<close> show ?thesis by simp
  next
    assume "x < 0" "\<not> y < 0"
    with eq digits_not_minus [of "nat y" "digits (nat (- x))"] show ?thesis
      by (simp add: Number_toString_def)
  next
    assume "\<not> x < 0" "y < 0"
    with eq digits_not_minus [of "nat x" "digits (nat (- y))"] show ?thesis
      by (simp add: Number_toString_def)
  next
    assume "\<not> x < 0" "\<not> y < 0"
    with eq have "nat x = nat y" by (simp add: Number_toString_def digits_inj)
    with \<open>\<not> x < 0\<close> \<open>\<not> y < 0\<close> show ?thesis by simp
  qed
qed simp

lemma Number_toString_numch: "\<forall>c\<in>set (Number_toString x). numch c"
  using digits_numch by (auto simp: Number_toString_def numch_def)

text \<open>A number is read back unambiguously in front of any character that is not part of one.\<close>

lemma Number_toString_split:
  assumes "\<not> numch c" "\<not> numch c'"
  shows "(Number_toString x @ c # r = Number_toString y @ c' # r') = (x = y \<and> c = c' \<and> r = r')"
proof
  assume eq: "Number_toString x @ c # r = Number_toString y @ c' # r'"
  have "takeWhile numch (Number_toString x @ c # r) = Number_toString x"
    using assms Number_toString_numch by (simp add: takeWhile_tail)
  moreover have "takeWhile numch (Number_toString y @ c' # r') = Number_toString y"
    using assms Number_toString_numch by (simp add: takeWhile_tail)
  ultimately have "Number_toString x = Number_toString y" using eq by simp
  with eq show "x = y \<and> c = c' \<and> r = r'" by (simp add: Number_toString_inj)
qed auto

text \<open>Equal renderings mean equal snapshots: the string comparison is structural equality.\<close>

lemma JSON_stringify_inj: "(JSON_stringify p = JSON_stringify q) = (p = q)"
proof
  assume "JSON_stringify p = JSON_stringify q"
  then have "brightness p = brightness q \<and> contrast p = contrast q
    \<and> saturation p = saturation q \<and> hue p = hue q \<and> vignette p = vignette q
    \<and> grayscale p = grayscale q \<and> sepia p = sepia q \<and> rotation p = rotation q
    \<and> rotateX p = rotateX q \<and> rotateY p = rotateY q
    \<and> perspective p = perspective q \<and> cameraShake p = cameraShake q"
    by (simp add: JSON_stringify_def Number_toString_split Number_toString_inj numch_def
        Boolean_toString_def split: if_splits)
  then show "p = q" by simp
qed simp

lemma handleSliderEnd_Some:
  "dragStartParams s = Some start \<Longrightarrow>
   handleSliderEnd s =
     (if start \<noteq> params s
      then s\<lparr>isDragging := False, history := history s @ [start], future := []\<rparr>
      else s\<lparr>isDragging := False\<rparr>)"
  by (simp add: handleSliderEnd_def JSON_stringify_inj Let_def)

subsection \<open>Stacks under repeated undo and redo\<close>

lemma undo_funpow:
  "length (history s) \<le> k \<Longrightarrow>
   (undo ^^ k) s = s\<lparr>future := tl (history s @ [params s]) @ future s, history := [],
                       params := hd (history s @ [params s])\<rparr>"
proof (induction k arbitrary: s)
  case 0
  then show ?case by simp
next
  case (Suc k)
  show ?case
  proof (cases "history s = []")
    case True
    then have "undo s = s" by (simp add: undo_def)
    with Suc.IH [of s] True show ?thesis by (simp add: funpow_swap1 undo_def)
  next
    case False
    let ?s1 = "s\<lparr>future := params s # future s, history := butlast (history s),
                 params := last (history s)\<rparr>"
    from False have u: "undo s = ?s1" by (simp add: undo_def)
    from Suc.prems have "length (history ?s1) \<le> k" by simp
    from Suc.IH [OF this] False show ?thesis
      by (simp add: funpow_swap1 u)
  qed
qed

lemma redo_funpow:
  "length (future s) \<le> k \<Longrightarrow>
   (redo ^^ k) s = s\<lparr>history := history s @ butlast (params s # future s), future := [],
                       params := last (params s # future s)\<rparr>"
proof (induction k arbitrary: s)
  case 0
  then show ?case by simp
next
  case (Suc k)
  show ?case
  proof (cases "future s")
    case Nil
    then have "redo s = s" by (simp add: redo_def)
    with Suc.IH [of s] Nil show ?thesis by (simp add: funpow_swap1 redo_def)
  next
    case (Cons x f)
    let ?s1 = "s\<lparr>history := history s @ [params s], future := f, params := x\<rparr>"
    from Cons have r: "redo s = ?s1" by (simp add: redo_def)
    from Suc.prems Cons have "length (future ?s1) \<le> k" by simp
    from Suc.IH [OF this] Cons show ?thesis
      by (simp add: funpow_swap1 r)
  qed
qed

lemma drag_stacks:
  "history (drag ticks s) = history s \<and> future (drag ticks s) = future s
   \<and> dragStartParams (drag ticks s) = Some (params s)"
proof -
  have "\<And>t. history (foldl (\<lambda>s' p. updateParams p False s') t ticks) = history t
    \<and> future (foldl (\<lambda>s' p. updateParams p False s') t ticks) = future t
    \<and> dragStartParams (foldl (\<lambda>s' p. updateParams p False s') t ticks) = dragStartParams t"
    by (induction ticks) (simp_all add: updateParams_def)
  then show ?thesis by (simp add: drag_def handleSliderStart_def)
qed

lemma apply_edit_inv:
  assumes "future s = []"
  shows "future (apply_edit s e) = []
    \<and> hd (history (apply_edit s e) @ [params (apply_edit s e)]) = hd (history s @ [params s])
    \<and> length (history (apply_edit s e)) \<le> Suc (length (history s))"
proof (cases e)
  case (Commit p)
  then show ?thesis by (simp add: updateParams_def hd_append)
next
  case (Drag ticks)
  have d: "dragStartParams (drag ticks s) = Some (params s)"
    by (simp add: drag_stacks)
  show ?thesis
  proof (cases "params s = params (drag ticks s)")
    case True
    with Drag assms show ?thesis
      by (simp add: handleSliderEnd_Some [OF d] drag_stacks)
  next
    case False
    with Drag assms show ?thesis
      by (simp add: handleSliderEnd_Some [OF d] drag_stacks hd_append)
  qed
qed

lemma apply_edits_inv:
  "future s = [] \<Longrightarrow>
   future (apply_edits es s) = []
   \<and> hd (history (apply_edits es s) @ [params (apply_edits es s)]) = hd (history s @ [params s])
   \<and> length (history (apply_edits es s)) \<le> length es + length (history s)"
proof (induction es arbitrary: s)
  case Nil
  then show ?case by (simp add: apply_edits_def)
next
  case (Cons e es)
  from apply_edit_inv [OF Cons.prems, of e] Cons.IH [of "apply_edit s e"]
  show ?case by (simp add: apply_edits_def)
qed

text \<open>
  C1: from the initial default snapshot, after any sequence \<open>es\<close> of committed edits
  (button commits and whole slider drags), \<open>length es\<close> undos bring the live parameters
  back to the default snapshot, and \<open>length es\<close> redos after that restore the whole editor
  state reached after the last edit. On an empty undo stack \<open>undo\<close> returns the state
  unchanged, and on an empty redo stack so does \<open>redo\<close>.
\<close>

theorem undo_redo_round_trip:
  "params ((undo ^^ length es) (apply_edits es initial)) = default_params
   \<and> (redo ^^ length es) ((undo ^^ length es) (apply_edits es initial)) = apply_edits es initial
   \<and> (history s = [] \<longrightarrow> undo s = s)
   \<and> (future s = [] \<longrightarrow> redo s = s)"
proof -
  let ?t = "apply_edits es initial"
  have inv: "future ?t = []" "hd (history ?t @ [params ?t]) = default_params"
    "length (history ?t) \<le> length es"
    using apply_edits_inv [of initial es] by (simp_all add: initial_def)
  let ?u = "(undo ^^ length es) ?t"
  have u: "?u = ?t\<lparr>future := tl (history ?t @ [params ?t]), history := [],
                     params := hd (history ?t @ [params ?t])\<rparr>"
    using undo_funpow [OF inv(3)] inv(1) by simp
  have "length (future ?u) \<le> length es" using inv(3) by (simp add: u)
  from redo_funpow [OF this] have "(redo ^^ length es) ?u = ?t"
    by (cases "history ?t") (simp_all add: u inv(1))
  with u inv(2) show ?thesis by (simp add: undo_def redo_def)
qed

theorem undo_redo_round_trip_witness:
  "params ((undo ^^ length [Commit (no_change\<lparr>p_brightness := Some 150\<rparr>),
                             Drag [no_change\<lparr>p_hue := Some 10\<rparr>, no_change\<lparr>p_hue := Some 25\<rparr>]])
           (apply_edits [Commit (no_change\<lparr>p_brightness := Some 150\<rparr>),
                         Drag [no_change\<lparr>p_hue := Some 10\<rparr>, no_change\<lparr>p_hue := Some 25\<rparr>]]
              initial)) = default_params
   \<and> history (apply_edits [Commit (no_change\<lparr>p_brightness := Some 150\<rparr>),
                         Drag [no_change\<lparr>p_hue := Some 10\<rparr>, no_change\<lparr>p_hue := Some 25\<rparr>]]
              initial)
     = [default_params, default_params\<lparr>brightness := 150\<rparr>]
   \<and> params (apply_edits [Commit (no_change\<lparr>p_brightness := Some 150\<rparr>),
                         Drag [no_change\<lparr>p_hue := Some 10\<rparr>, no_change\<lparr>p_hue := Some 25\<rparr>]]
              initial)
     = default_params\<lparr>brightness := 150, hue := 25\<rparr>
   \<and> history initial = [] \<and> undo initial = initial
   \<and> future initial = [] \<and> redo initial = initial"
  using undo_redo_round_trip
    [of "[Commit (no_change\<lparr>p_brightness := Some 150\<rparr>),
          Drag [no_change\<lparr>p_hue := Some 10\<rparr>, no_change\<lparr>p_hue := Some 25\<rparr>]]" initial]
  by (simp add: initial_def apply_edits_def drag_def handleSliderStart_def updateParams_def
      merge_def spread_def no_change_def default_params_def handleSliderEnd_Some)

text \<open>
  C4: during a drag (press, then any number of uncommitted updates) neither stack changes,
  whatever the number of ticks. The release leaves the live parameters as they are; when
  the snapshot taken at the press differs from them it appends exactly that snapshot to
  the undo stack and empties the redo stack, and when it equals them both stacks stay as
  they were before the drag.
\<close>

theorem drag_session_one_entry:
  "(\<forall>k. history (drag (take k ticks) s) = history s \<and> future (drag (take k ticks) s) = future s)
   \<and> params (handleSliderEnd (drag ticks s)) = params (drag ticks s)
   \<and> (if params s \<noteq> params (drag ticks s)
      then history (handleSliderEnd (drag ticks s)) = history s @ [params s]
         \<and> future (handleSliderEnd (drag ticks s)) = []
      else history (handleSliderEnd (drag ticks s)) = history s
         \<and> future (handleSliderEnd (drag ticks s)) = future s)"
proof -
  have d: "dragStartParams (drag ticks s) = Some (params s)"
    by (simp add: drag_stacks)
  show ?thesis
    by (simp add: handleSliderEnd_Some [OF d] drag_stacks)
qed

subsection \<open>Export dimensions\<close>

lemma js_trunc_of_int_div:
  assumes "0 \<le> k" "0 < l"
  shows "js_trunc (real_of_int k / real_of_int l) = k div l"
proof -
  from assms have "0 \<le> real_of_int k / real_of_int l" by simp
  then show ?thesis by (simp add: js_trunc_def floor_divide_of_int_eq not_less)
qed

lemma isVertical_quarter_turns:
  "r \<in> {0, 90, 180, 270} \<Longrightarrow>
   (js_rem (real_of_int r / 90) 2 \<noteq> 0) = (r = 90 \<or> r = 270)"
  by (auto simp: js_rem_def js_trunc_def)

lemma fit_div:
  fixes b m n :: int
  assumes "0 < n" 
  shows "real_of_int ((b * m) div n) \<le> real_of_int b * real_of_int m / real_of_int n"
    and "real_of_int b * real_of_int m / real_of_int n < real_of_int ((b * m) div n) + 1"
proof -
  have "\<lfloor>real_of_int (b * m) / real_of_int n\<rfloor> = (b * m) div n"
    by (rule floor_divide_of_int_eq)
  then have e: "real_of_int ((b * m) div n) = real_of_int \<lfloor>real_of_int b * real_of_int m / real_of_int n\<rfloor>"
    by simp
  show "real_of_int ((b * m) div n) \<le> real_of_int b * real_of_int m / real_of_int n"
    unfolding e by (rule of_int_floor_le)
  show "real_of_int b * real_of_int m / real_of_int n < real_of_int ((b * m) div n) + 1"
    unfolding e by linarith
qed

lemma unsigned_long_of_int_div:
  assumes "0 \<le> k" "0 < l" "k div l < 2 ^ 32"
  shows "unsigned_long (real_of_int k / real_of_int l) = k div l"
proof -
  from assms have "0 \<le> k div l" by (simp add: pos_imp_zdiv_nonneg_iff)
  with assms show ?thesis by (simp add: unsigned_long_def js_trunc_of_int_div)
qed

lemma unsigned_long_of_int:
  assumes "0 \<le> k" "k < 2 ^ 32"
  shows "unsigned_long (real_of_int k) = k"
  using assms by (simp add: unsigned_long_def js_trunc_def)

text \<open>The two branches of the fit, for base dimensions and a ratio given as integers.\<close>

lemma fit_compare:
  fixes baseW baseH wR hR :: int
  assumes "0 < wR"
  shows "(real_of_int baseW * real_of_int hR / real_of_int wR > real_of_int baseH)
       = (baseW * hR > baseH * wR)"
proof -
  have "(real_of_int baseW * real_of_int hR / real_of_int wR > real_of_int baseH)
      = (real_of_int (baseH * wR) < real_of_int (baseW * hR))"
    using assms by (simp add: pos_less_divide_eq)
  then show ?thesis by (simp only: of_int_less_iff)
qed

lemma fit_shrinks:
  fixes baseW baseH wR hR :: int
  assumes "0 < wR" "0 < hR"
  shows "baseW * hR > baseH * wR \<Longrightarrow> (baseH * wR) div hR \<le> baseW"
    and "\<not> baseW * hR > baseH * wR \<Longrightarrow> (baseW * hR) div wR \<le> baseH"
proof -
  show "baseW * hR > baseH * wR \<Longrightarrow> (baseH * wR) div hR \<le> baseW"
  proof -
    assume "baseW * hR > baseH * wR"
    then have "(baseH * wR) div hR \<le> (baseW * hR) div hR"
      by (intro zdiv_mono1) (use assms in auto)
    with assms show ?thesis by simp
  qed
  show "\<not> baseW * hR > baseH * wR \<Longrightarrow> (baseW * hR) div wR \<le> baseH"
  proof -
    assume "\<not> baseW * hR > baseH * wR"
    then have "(baseW * hR) div wR \<le> (baseH * wR) div wR"
      by (intro zdiv_mono1) (use assms in auto)
    with assms show ?thesis by simp
  qed
qed

lemma fit_inside:
  fixes baseW baseH wR hR :: int
  assumes b: "0 < baseW" "baseW < 2 ^ 32" "0 < baseH" "baseH < 2 ^ 32" and r: "0 < wR" "0 < hR"
  shows "unsigned_long
           (if real_of_int baseW * real_of_int hR / real_of_int wR > real_of_int baseH
            then real_of_int baseH * real_of_int wR / real_of_int hR else real_of_int baseW)
         = (if baseW * hR > baseH * wR then (baseH * wR) div hR else baseW)"
    and "unsigned_long
           (if real_of_int baseW * real_of_int hR / real_of_int wR > real_of_int baseH
            then real_of_int baseH else real_of_int baseW * real_of_int hR / real_of_int wR)
         = (if baseW * hR > baseH * wR then baseH else (baseW * hR) div wR)"
proof -
  have c: "(real_of_int baseW * real_of_int hR / real_of_int wR > real_of_int baseH)
         = (baseW * hR > baseH * wR)"
    by (rule fit_compare [OF r(1)])
  have nn: "0 \<le> baseH * wR" "0 \<le> baseW * hR" using b r by simp_all
  show "unsigned_long
           (if real_of_int baseW * real_of_int hR / real_of_int wR > real_of_int baseH
            then real_of_int baseH * real_of_int wR / real_of_int hR else real_of_int baseW)
         = (if baseW * hR > baseH * wR then (baseH * wR) div hR else baseW)"
  proof (cases "baseW * hR > baseH * wR")
    case True
    with fit_shrinks(1) [OF r] b have "(baseH * wR) div hR < 2 ^ 32" by fastforce
    from unsigned_long_of_int_div [OF nn(1) r(2) this] True show ?thesis
      by (simp only: c if_True of_int_mult)
  next
    case False
    from unsigned_long_of_int [of baseW] b False show ?thesis
      by (simp only: c if_False order_less_imp_le)
  qed
  show "unsigned_long
           (if real_of_int baseW * real_of_int hR / real_of_int wR > real_of_int baseH
            then real_of_int baseH else real_of_int baseW * real_of_int hR / real_of_int wR)
         = (if baseW * hR > baseH * wR then baseH else (baseW * hR) div wR)"
  proof (cases "baseW * hR > baseH * wR")
    case True
    from unsigned_long_of_int [of baseH] b True show ?thesis
      by (simp only: c if_True order_less_imp_le)
  next
    case False
    with fit_shrinks(2) [OF r] b have "(baseW * hR) div wR < 2 ^ 32" by fastforce
    from unsigned_long_of_int_div [OF nn(2) r(1) this] False show ?thesis
      by (simp only: c if_False of_int_mult)
  qed
qed

lemma handleSave_unfold:
  assumes "rotation p \<in> {0, 90, 180, 270}"
    and "bw = (if rotation p = 90 \<or> rotation p = 270 then h else w)"
    and "bh = (if rotation p = 90 \<or> rotation p = 270 then w else h)"
    and "wR = (case a of Ratio_16_9 \<Rightarrow> 16 | Ratio_9_16 \<Rightarrow> 9)"
    and "hR = (case a of Ratio_16_9 \<Rightarrow> 9 | Ratio_9_16 \<Rightarrow> 16)"
  shows "handleSave a p w h =
     \<lparr>final_width = unsigned_long
        (if real_of_int bw * real_of_int hR / real_of_int wR > real_of_int bh
         then real_of_int bh * real_of_int wR / real_of_int hR else real_of_int bw),
      final_height = unsigned_long
        (if real_of_int bw * real_of_int hR / real_of_int wR > real_of_int bh
         then real_of_int bh else real_of_int bw * real_of_int hR / real_of_int wR)\<rparr>"
proof -
  have v: "(js_rem (real_of_int (rotation p) / 90) 2 \<noteq> 0) = (rotation p = 90 \<or> rotation p = 270)"
    using assms(1) by (rule isVertical_quarter_turns)
  show ?thesis
    unfolding assms(2-5) by (cases a) (simp_all add: handleSave_def v Let_def)
qed

text \<open>
  C2, as amended: for a preview canvas of positive size (its width and height are
  \<^verbatim>\<open>unsigned long\<close> values, so below \<open>2\<^sup>3\<^sup>2\<close>), a planar rotation of 0, 90, 180 or 270
  degrees and either target ratio \<open>wR : hR\<close>, with the base dimensions being the canvas
  dimensions swapped exactly for 90 and 270 degrees: the export canvas is never wider than
  the base width nor taller than the base height. When the height matching the base width
  fits (\<open>baseW * hR / wR \<le> baseH\<close>) the width is the base width, otherwise the height is the
  base height; in both cases the other dimension is the one of exact ratio \<open>wR : hR\<close>
  truncated to a whole pixel. Both sides are at least one pixel, so that there is a
  raster, and its ratio is then the requested one up to that truncation, exactly when the
  base width is at least 2 (for 16:9) or the base height is at least 2 (for 9:16);
  otherwise the truncated side is 0.
\<close>

theorem export_fits_inside:
  assumes "0 < w" "w < 2 ^ 32" "0 < h" "h < 2 ^ 32" "rotation p \<in> {0, 90, 180, 270}"
  shows "let (baseW, baseH) = (if rotation p = 90 \<or> rotation p = 270 then (h, w) else (w, h));
             (wR, hR) = (case a of Ratio_16_9 \<Rightarrow> (16, 9) | Ratio_9_16 \<Rightarrow> (9, 16));
             W = final_width (handleSave a p w h);
             H = final_height (handleSave a p w h)
         in 0 \<le> W \<and> W \<le> baseW \<and> 0 \<le> H \<and> H \<le> baseH
          \<and> (0 < W \<and> 0 < H)
              = (case a of Ratio_16_9 \<Rightarrow> 2 \<le> baseW | Ratio_9_16 \<Rightarrow> 2 \<le> baseH)
          \<and> (if real_of_int baseW * real_of_int hR / real_of_int wR \<le> real_of_int baseH
             then W = baseW
                \<and> real_of_int H \<le> real_of_int W * real_of_int hR / real_of_int wR
                \<and> real_of_int W * real_of_int hR / real_of_int wR < real_of_int H + 1
             else H = baseH
                \<and> real_of_int W \<le> real_of_int H * real_of_int wR / real_of_int hR
                \<and> real_of_int H * real_of_int wR / real_of_int hR < real_of_int W + 1)"
proof -
  define bw where "bw = (if rotation p = 90 \<or> rotation p = 270 then h else w)"
  define bh where "bh = (if rotation p = 90 \<or> rotation p = 270 then w else h)"
  define wR :: int where "wR = (case a of Ratio_16_9 \<Rightarrow> 16 | Ratio_9_16 \<Rightarrow> 9)"
  define hR :: int where "hR = (case a of Ratio_16_9 \<Rightarrow> 9 | Ratio_9_16 \<Rightarrow> 16)"
  define W where "W = final_width (handleSave a p w h)"
  define H where "H = final_height (handleSave a p w h)"
  have b: "0 < bw" "bw < 2 ^ 32" "0 < bh" "bh < 2 ^ 32" and r: "0 < wR" "0 < hR"
    using assms by (auto simp: bw_def bh_def wR_def hR_def split: AspectRatio.splits)
  note u = handleSave_unfold [OF assms(5) bw_def bh_def wR_def hR_def]
  have W: "W = (if bw * hR > bh * wR then (bh * wR) div hR else bw)"
    unfolding W_def u by (simp only: FinalCanvas.select_convs fit_inside(1) [OF b r])
  have H: "H = (if bw * hR > bh * wR then bh else (bw * hR) div wR)"
    unfolding H_def u by (simp only: FinalCanvas.select_convs fit_inside(2) [OF b r])
  have c: "(real_of_int bw * real_of_int hR / real_of_int wR > real_of_int bh)
         = (bw * hR > bh * wR)"
    by (rule fit_compare [OF r(1)])
  have pos: "(0 < W \<and> 0 < H)
      = (case a of Ratio_16_9 \<Rightarrow> 2 \<le> bw | Ratio_9_16 \<Rightarrow> 2 \<le> bh)"
  proof (cases a)
    case Ratio_16_9
    then have "wR = 16" "hR = 9" by (simp_all add: wR_def hR_def)
    with b Ratio_16_9 show ?thesis
      by (auto simp: W H pos_imp_zdiv_pos_iff)
  next
    case Ratio_9_16
    then have "wR = 9" "hR = 16" by (simp_all add: wR_def hR_def)
    with b Ratio_9_16 show ?thesis
      by (auto simp: W H pos_imp_zdiv_pos_iff)
  qed
  have rest: "0 \<le> W \<and> W \<le> bw \<and> 0 \<le> H \<and> H \<le> bh
     \<and> (if real_of_int bw * real_of_int hR / real_of_int wR \<le> real_of_int bh
        then W = bw
           \<and> real_of_int H \<le> real_of_int W * real_of_int hR / real_of_int wR
           \<and> real_of_int W * real_of_int hR / real_of_int wR < real_of_int H + 1
        else H = bh
           \<and> real_of_int W \<le> real_of_int H * real_of_int wR / real_of_int hR
           \<and> real_of_int H * real_of_int wR / real_of_int hR < real_of_int W + 1)"
  proof (cases "bw * hR > bh * wR")
    case True
    then have n: "\<not> real_of_int bw * real_of_int hR / real_of_int wR \<le> real_of_int bh"
      using c by simp
    have "0 \<le> (bh * wR) div hR" using b r by (simp add: pos_imp_zdiv_nonneg_iff)
    with n True fit_shrinks(1) [OF r, where baseH = bh and baseW = bw] b
      fit_div [OF r(2), where b = bh and m = wR]
    show ?thesis by (simp add: W H)
  next
    case False
    then have n: "real_of_int bw * real_of_int hR / real_of_int wR \<le> real_of_int bh"
      using c by simp
    have "0 \<le> (bw * hR) div wR" using b r by (simp add: pos_imp_zdiv_nonneg_iff)
    with n False fit_shrinks(2) [OF r, where baseH = bh and baseW = bw] b
      fit_div [OF r(1), where b = bw and m = hR]
    show ?thesis by (simp add: W H)
  qed
  from pos rest
  have main: "0 \<le> W \<and> W \<le> bw \<and> 0 \<le> H \<and> H \<le> bh
     \<and> (0 < W \<and> 0 < H)
         = (case a of Ratio_16_9 \<Rightarrow> 2 \<le> bw | Ratio_9_16 \<Rightarrow> 2 \<le> bh)
     \<and> (if real_of_int bw * real_of_int hR / real_of_int wR \<le> real_of_int bh
        then W = bw
           \<and> real_of_int H \<le> real_of_int W * real_of_int hR / real_of_int wR
           \<and> real_of_int W * real_of_int hR / real_of_int wR < real_of_int H + 1
        else H = bh
           \<and> real_of_int W \<le> real_of_int H * real_of_int wR / real_of_int hR
           \<and> real_of_int H * real_of_int wR / real_of_int hR < real_of_int W + 1)"
    by blast
  have p1: "(if rotation p = 90 \<or> rotation p = 270 then (h, w) else (w, h)) = (bw, bh)"
    by (simp add: bw_def bh_def)
  have p2: "(case a of Ratio_16_9 \<Rightarrow> (16, 9) | Ratio_9_16 \<Rightarrow> (9, 16)) = (wR, hR)"
    by (cases a) (simp_all add: wR_def hR_def)
  show ?thesis
    unfolding p1 p2 Let_def prod.case using main unfolding W_def H_def .
qed

theorem export_fits_inside_witness:
  "(0::int) < 1080 \<and> (1920::int) < 2 ^ 32
   \<and> rotation (default_params\<lparr>rotation := 90\<rparr>) \<in> {0, 90, 180, 270}
   \<and> final_width (handleSave Ratio_16_9 (default_params\<lparr>rotation := 90\<rparr>) 1080 1920) = 1920
   \<and> final_height (handleSave Ratio_16_9 (default_params\<lparr>rotation := 90\<rparr>) 1080 1920) = 1080
   \<and> final_width (handleSave Ratio_9_16 default_params 1000 1000) = 562
   \<and> final_height (handleSave Ratio_9_16 default_params 1000 1000) = 1000"
  using export_fits_inside [of 1080 1920 "default_params\<lparr>rotation := 90\<rparr>" Ratio_16_9]
    export_fits_inside [of 1000 1000 default_params Ratio_9_16]
  by (simp add: default_params_def handleSave_def js_rem_def js_trunc_def unsigned_long_def)

text \<open>
  C2 as stated fails for a source one pixel wide: the 16:9 export of a 1 by 1 image is a
  canvas of width 1 and height 0, which holds no pixel and has no ratio.
\<close>

theorem export_of_one_pixel_source_is_empty:
  "final_width (handleSave Ratio_16_9 default_params 1 1) = 1
   \<and> final_height (handleSave Ratio_16_9 default_params 1 1) = 0"
  by (simp add: default_params_def handleSave_def js_rem_def js_trunc_def unsigned_long_def)

subsection \<open>Preview render\<close>

lemma half_diagonal:
  "sqrt ((real_of_int w / 2)\<^sup>2 + (real_of_int h / 2)\<^sup>2) = sqrt ((real_of_int w)\<^sup>2 + (real_of_int h)\<^sup>2) / 2"
proof -
  have "(real_of_int w / 2)\<^sup>2 + (real_of_int h / 2)\<^sup>2 = ((real_of_int w)\<^sup>2 + (real_of_int h)\<^sup>2) / 2\<^sup>2"
    by (simp add: power_divide add_divide_distrib)
  then show ?thesis by (simp only: real_sqrt_divide real_sqrt_abs)
qed

text \<open>
  C9: the filter under which the preview draws the image is the blank-separated chain
  brightness, contrast, saturate, hue-rotate, followed by \<open>grayscale(100%)\<close> only when the
  grayscale flag is set and then by \<open>sepia(100%)\<close> only when the sepia flag is set. A
  vignette gradient is filled over the image if and only if \<open>vignette \<noteq> 0\<close>: both circles
  are centred on the middle of the image, the inner radius is 0 and the outer radius is
  half the diagonal; its colour is black for a positive and white for a negative value;
  its first stop, at 40 percent of the radius, has opacity 0 (so the gradient is
  transparent up to there) and its last stop, at the edge, has opacity \<open>\<bar>vignette\<bar> / 100\<close>.
\<close>

theorem preview_filter_chain_and_vignette:
  "ctx_filter (applyChanges p w h) =
     join '' '' (map Some
       ([''brightness('' @ Number_toString (brightness p) @ ''%)'',
         ''contrast('' @ Number_toString (contrast p) @ ''%)'',
         ''saturate('' @ Number_toString (saturation p) @ ''%)'',
         ''hue-rotate('' @ Number_toString (hue p) @ ''deg)'']
        @ (if grayscale p then [''grayscale(100%)''] else [])
        @ (if sepia p then [''sepia(100%)''] else [])))
   \<and> vignette_fill (applyChanges p w h) =
     (if vignette p = 0 then None
      else Some \<lparr>x0 = real_of_int w / 2, y0 = real_of_int h / 2, r0 = 0,
                 x1 = real_of_int w / 2, y1 = real_of_int h / 2,
                 r1 = sqrt ((real_of_int w)\<^sup>2 + (real_of_int h)\<^sup>2) / 2,
                 stops = [\<lparr>offset = 4 / 10,
                            color = (if vignette p > 0 then ''0, 0, 0'' else ''255, 255, 255''),
                            alpha = 0\<rparr>,
                          \<lparr>offset = 1,
                            color = (if vignette p > 0 then ''0, 0, 0'' else ''255, 255, 255''),
                            alpha = real_of_int \<bar>vignette p\<bar> / 100\<rparr>]\<rparr>)"
proof
  show "ctx_filter (applyChanges p w h) =
     join '' '' (map Some
       ([''brightness('' @ Number_toString (brightness p) @ ''%)'',
         ''contrast('' @ Number_toString (contrast p) @ ''%)'',
         ''saturate('' @ Number_toString (saturation p) @ ''%)'',
         ''hue-rotate('' @ Number_toString (hue p) @ ''deg)'']
        @ (if grayscale p then [''grayscale(100%)''] else [])
        @ (if sepia p then [''sepia(100%)''] else [])))"
    by (simp add: applyChanges_def Let_def)
  show "vignette_fill (applyChanges p w h) =
     (if vignette p = 0 then None
      else Some \<lparr>x0 = real_of_int w / 2, y0 = real_of_int h / 2, r0 = 0,
                 x1 = real_of_int w / 2, y1 = real_of_int h / 2,
                 r1 = sqrt ((real_of_int w)\<^sup>2 + (real_of_int h)\<^sup>2) / 2,
                 stops = [\<lparr>offset = 4 / 10,
                            color = (if vignette p > 0 then ''0, 0, 0'' else ''255, 255, 255''),
                            alpha = 0\<rparr>,
                          \<lparr>offset = 1,
                            color = (if vignette p > 0 then ''0, 0, 0'' else ''255, 255, 255''),
                            alpha = real_of_int \<bar>vignette p\<bar> / 100\<rparr>]\<rparr>)"
    by (simp add: applyChanges_def Let_def half_diagonal)
qed

section \<open>Verified properties of the dashboard\<close>

subsection \<open>Prompt composer\<close>

lemma trim_append_space: "trim (t @ '' '') = trim t"
  by (simp add: trim_def isWhiteSpace_def)

text \<open>
  C5: the speed clause is the slow one exactly when \<open>speed \<le> 0.6\<close>, the fast one exactly
  when \<open>speed \<ge> 1.4\<close>, and empty exactly in between; the composed prompt is the trimmed
  concatenation of the base text (with the advanced clause in advanced mode), a blank, the
  speed clause, and the motion-blur and stabilization clauses of the flags that are set.
  In particular, with advanced mode off, speed 1.0 and both flags off, the composed prompt
  is the trimmed base text, for every base text.
\<close>

theorem speed_clause_and_neutral_prompt:
  "(speedInstruction sp = '' The animation should be very slow, deliberate, and serene.'')
     = (sp \<le> 6 / 10)
   \<and> (speedInstruction sp = '' The animation should be fast-paced, high-energy, and dynamic.'')
     = (sp \<ge> 14 / 10)
   \<and> (speedInstruction sp = []) = (6 / 10 < sp \<and> sp < 14 / 10)
   \<and> enginePrompt i =
       trim ((if isAdvancedMode i then prompt i @ advancedClause i else prompt i)
             @ '' '' @ speedInstruction (speed i)
             @ (if motionBlur i then '' Apply realistic cinematic motion blur.'' else [])
             @ (if stabilization i
                then '' Ensure perfectly stabilized, jitter-free camera movement.'' else []))
   \<and> enginePrompt (i\<lparr>isAdvancedMode := False, speed := 1, motionBlur := False,
                      stabilization := False\<rparr>) = trim (prompt i)"
proof (intro conjI)
  show "(speedInstruction sp = '' The animation should be very slow, deliberate, and serene.'')
     = (sp \<le> 6 / 10)"
    by (simp add: speedInstruction_def)
  show "(speedInstruction sp = '' The animation should be fast-paced, high-energy, and dynamic.'')
     = (sp \<ge> 14 / 10)"
    by (auto simp add: speedInstruction_def)
  show "(speedInstruction sp = []) = (6 / 10 < sp \<and> sp < 14 / 10)"
    by (auto simp add: speedInstruction_def)
  show "enginePrompt i =
       trim ((if isAdvancedMode i then prompt i @ advancedClause i else prompt i)
             @ '' '' @ speedInstruction (speed i)
             @ (if motionBlur i then '' Apply realistic cinematic motion blur.'' else [])
             @ (if stabilization i
                then '' Ensure perfectly stabilized, jitter-free camera movement.'' else []))"
    by (simp add: enginePrompt_def Let_def)
  show "enginePrompt (i\<lparr>isAdvancedMode := False, speed := 1, motionBlur := False,
                      stabilization := False\<rparr>) = trim (prompt i)"
    using trim_append_space [of "prompt i"]
    by (simp add: enginePrompt_def Let_def speedInstruction_def)
qed

subsection \<open>Generation job\<close>

lemma shown_append: "shown (xs @ ys) = shown xs @ shown ys"
  by (induction xs rule: shown.induct) simp_all

lemma poll_loop_progress:
  "poll_loop opn mi g answers = (x, g', es) \<Longrightarrow> 0 \<le> progress g \<Longrightarrow> progress g \<le> 95 \<Longrightarrow>
   sorted (progress g # map progress (shown es))
   \<and> (\<forall>q\<in>set (map progress (shown es)). 0 \<le> q \<and> q \<le> 95)
   \<and> g' = last (g # shown es)"
proof (induction answers arbitrary: opn mi g x g' es)
  case Nil
  then show ?case by (auto split: if_splits)
next
  case (Cons answer answers)
  show ?case
  proof (cases "op_done opn")
    case True
    with Cons.prems show ?thesis by auto
  next
    case False
    define mi' where "mi' = (mi + 1) mod length LOADING_MESSAGES"
    define g1 where "g1 = g\<lparr>status := LOADING_MESSAGES ! mi', progress := min (progress g + 15) 95\<rparr>"
    have p1: "0 \<le> progress g1" "progress g1 \<le> 95" "progress g \<le> progress g1"
      using Cons.prems(2,3) by (simp_all add: g1_def)
    show ?thesis
    proof (cases answer)
      case (Inl err)
      with False Cons.prems(1) have "es = [Sleep, SetGenState g1, CallGetVideosOperation]" "g' = g1"
        by (auto simp: Let_def g1_def mi'_def)
      with p1 show ?thesis by simp
    next
      case (Inr opn1)
      obtain x2 g2 es2 where r: "poll_loop opn1 mi' g1 answers = (x2, g2, es2)"
        by (cases "poll_loop opn1 mi' g1 answers") auto
      with False Inr Cons.prems(1)
      have e: "es = [Sleep, SetGenState g1, CallGetVideosOperation] @ es2" "g' = g2" "x = x2"
        by (auto simp: Let_def g1_def mi'_def)
      from Cons.IH [OF r p1(1,2)] p1 e show ?thesis by auto
    qed
  qed
qed

lemma poll_loop_fields:
  "poll_loop opn mi g answers = (x, g', es) \<Longrightarrow>
   (\<forall>s\<in>set (g' # shown es).
      isGenerating s = isGenerating g \<and> error s = error g \<and> videoUrl s = videoUrl g)
   \<and> OnResetKey \<notin> set es \<and> CallGenerateVideos \<notin> set es
   \<and> (\<forall>opn'. x = LoopDone opn' \<longrightarrow>
         op_done opn' \<and> (opn' = opn \<or> Inr opn' \<in> set answers))"
proof (induction answers arbitrary: opn mi g x g' es)
  case Nil
  then show ?case by (auto split: if_splits)
next
  case (Cons answer answers)
  show ?case
  proof (cases "op_done opn")
    case True
    with Cons.prems show ?thesis by auto
  next
    case False
    define mi' where "mi' = (mi + 1) mod length LOADING_MESSAGES"
    define g1 where "g1 = g\<lparr>status := LOADING_MESSAGES ! mi', progress := min (progress g + 15) 95\<rparr>"
    have p1: "isGenerating g1 = isGenerating g" "error g1 = error g" "videoUrl g1 = videoUrl g"
      by (simp_all add: g1_def)
    show ?thesis
    proof (cases answer)
      case (Inl err)
      with False Cons.prems(1)
      have "es = [Sleep, SetGenState g1, CallGetVideosOperation]" "g' = g1" "x = LoopThrew err"
        by (auto simp: Let_def g1_def mi'_def)
      with p1 show ?thesis by simp
    next
      case (Inr opn1)
      obtain x2 g2 es2 where r: "poll_loop opn1 mi' g1 answers = (x2, g2, es2)"
        by (cases "poll_loop opn1 mi' g1 answers") auto
      with False Inr Cons.prems(1)
      have e: "es = [Sleep, SetGenState g1, CallGetVideosOperation] @ es2" "g' = g2" "x = x2"
        by (auto simp: Let_def g1_def mi'_def)
      from Cons.IH [OF r] p1 e Inr show ?thesis by auto
    qed
  qed
qed


lemma submitted_fields:
  "progress submitted = 0" "isGenerating submitted" "error submitted = None"
  "videoUrl submitted = None"
  by (simp_all add: submitted_def)

text \<open>The shapes a run can take, by the exit of the polling loop.\<close>

lemma generateVideo_rejected:
  "\<not> truthy img \<Longrightarrow>
   generateVideo img b g = \<lparr>outcome = Rejected, genState = g,
      effects = [Alert ''Please upload at least one starting image.'']\<rparr>"
  by (simp add: generateVideo_def)

lemma generateVideo_submit_threw:
  "truthy img \<Longrightarrow> generateVideos b = Inl err \<Longrightarrow>
   generateVideo img b g =
     (catch_block err submitted)\<lparr>effects := SetGenState submitted # [CallGenerateVideos]
                                   @ effects (catch_block err submitted)\<rparr>"
  by (simp add: generateVideo_def try_block_def Let_def)

lemma generateVideo_poll_threw:
  "truthy img \<Longrightarrow> generateVideos b = Inr opn \<Longrightarrow>
   poll_loop opn 0 submitted (getVideosOperation b) = (LoopThrew err, g', es) \<Longrightarrow>
   generateVideo img b g =
     (catch_block err g')\<lparr>effects := SetGenState submitted # (CallGenerateVideos # es)
                                   @ effects (catch_block err g')\<rparr>"
  by (simp add: generateVideo_def try_block_def Let_def)

lemma generateVideo_waiting:
  "truthy img \<Longrightarrow> generateVideos b = Inr opn \<Longrightarrow>
   poll_loop opn 0 submitted (getVideosOperation b) = (LoopWaiting, g', es) \<Longrightarrow>
   generateVideo img b g =
     \<lparr>outcome = Waiting, genState = g',
      effects = SetGenState submitted # CallGenerateVideos # es\<rparr>"
  by (simp add: generateVideo_def try_block_def Let_def)

lemma generateVideo_no_link:
  "truthy img \<Longrightarrow> generateVideos b = Inr opn \<Longrightarrow>
   poll_loop opn 0 submitted (getVideosOperation b) = (LoopDone opn', g', es) \<Longrightarrow>
   \<not> truthy (downloadLink opn') \<Longrightarrow>
   generateVideo img b g =
     \<lparr>outcome = ReturnedSilently, genState = g',
      effects = SetGenState submitted # CallGenerateVideos # es\<rparr>"
  by (simp add: generateVideo_def try_block_def Let_def)

lemma generateVideo_fetch_threw:
  "truthy img \<Longrightarrow> generateVideos b = Inr opn \<Longrightarrow>
   poll_loop opn 0 submitted (getVideosOperation b) = (LoopDone opn', g', es) \<Longrightarrow>
   truthy (downloadLink opn') \<Longrightarrow> fetch_blob b = Inl err \<Longrightarrow>
   generateVideo img b g =
     (catch_block err g')\<lparr>effects := SetGenState submitted
         # (CallGenerateVideos # es @ [CallFetch (the (downloadLink opn'))])
         @ effects (catch_block err g')\<rparr>"
  by (simp add: generateVideo_def try_block_def Let_def)

lemma generateVideo_succeeded:
  "truthy img \<Longrightarrow> generateVideos b = Inr opn \<Longrightarrow>
   poll_loop opn 0 submitted (getVideosOperation b) = (LoopDone opn', g', es) \<Longrightarrow>
   truthy (downloadLink opn') \<Longrightarrow> fetch_blob b = Inr url \<Longrightarrow>
   generateVideo img b g =
     \<lparr>outcome = Succeeded,
      genState = \<lparr>isGenerating = False, status = ''Generation complete!'', progress = 100,
                   error = None, videoUrl = Some url\<rparr>,
      effects = SetGenState submitted # CallGenerateVideos # es
                @ [CallFetch (the (downloadLink opn')),
                   SetGenState \<lparr>isGenerating = False, status = ''Generation complete!'',
                                 progress = 100, error = None, videoUrl = Some url\<rparr>]\<rparr>"
  by (simp add: generateVideo_def try_block_def Let_def)

text \<open>The \<^verbatim>\<open>catch\<close> block completes exactly when the message can be searched.\<close>

lemma catch_block_fields:
  assumes "msg \<noteq> NonString"
  shows "outcome (catch_block (JsError msg) g) = Failed"
    and "genState (catch_block (JsError msg) g) =
     \<lparr>isGenerating = False, status = ''Error'', progress = 0,
      error = Some (case msg of
                      Str m \<Rightarrow> if m = [] then ''An unexpected error occurred.'' else m
                    | _ \<Rightarrow> ''An unexpected error occurred.''),
      videoUrl = None\<rparr>"
    and "count_list (effects (catch_block (JsError msg) g)) OnResetKey =
     (if \<exists>m. msg = Str m \<and> String_includes m ''Requested entity was not found.''
      then 1 else 0)"
  using assms
  by (cases msg; simp add: catch_block_def message_includes_def message_or_def Let_def)+

lemma catch_block_threw:
  "catch_block Nullish g = \<lparr>outcome = CatchThrew, genState = g, effects = [ConsoleError]\<rparr>"
  "catch_block (JsError NonString) g =
     \<lparr>outcome = CatchThrew, genState = g, effects = [ConsoleError]\<rparr>"
  by (simp_all add: catch_block_def message_includes_def)

lemma catch_block_progress:
  "(outcome (catch_block err g) = CatchThrew \<and> shown (effects (catch_block err g)) = [])
   \<or> (outcome (catch_block err g) = Failed
      \<and> map progress (shown (effects (catch_block err g))) = [0])"
  by (cases "message_includes err ''Requested entity was not found.''")
    (simp_all add: catch_block_def Let_def)

text \<open>A run that entered the \<^verbatim>\<open>catch\<close> block, over the progress values set before it.\<close>

lemma thrown_run_progress:
  assumes "sorted (0 # map progress (shown es))"
    and "\<forall>q\<in>set (map progress (shown es)). 0 \<le> q \<and> q \<le> 95"
    and "effects r = SetGenState submitted # es0 @ effects (catch_block err g')"
    and "outcome r = outcome (catch_block err g')"
    and "shown es0 = shown es"
  shows "sorted (if outcome r = Succeeded \<or> outcome r = Failed
                 then butlast (map progress (shown (effects r)))
                 else map progress (shown (effects r)))
    \<and> (\<forall>q\<in>set (if outcome r = Succeeded \<or> outcome r = Failed
                   then butlast (map progress (shown (effects r)))
                   else map progress (shown (effects r))). 0 \<le> q \<and> q \<le> 95)
    \<and> (100 \<in> set (map progress (shown (effects r))) \<longrightarrow> P)"
proof -
  from assms(2) have n: "100 \<notin> set (map progress (shown es))" by fastforce
  have p0: "progress submitted = 0" by (simp add: submitted_def)
  from catch_block_progress [of err g'] show ?thesis
  proof
    assume c: "outcome (catch_block err g') = CatchThrew
      \<and> shown (effects (catch_block err g')) = []"
    then have ps: "map progress (shown (effects r)) = 0 # map progress (shown es)"
      using assms(3,5) p0 by (simp add: shown_append)
    from c assms(4) have o: "\<not> (outcome r = Succeeded \<or> outcome r = Failed)" by simp
    from assms(1,2) n show ?thesis unfolding ps using o by simp
  next
    assume c: "outcome (catch_block err g') = Failed
      \<and> map progress (shown (effects (catch_block err g'))) = [0]"
    then have ps: "map progress (shown (effects r)) = (0 # map progress (shown es)) @ [0]"
      using assms(3,5) p0 by (simp add: shown_append)
    from c assms(4) have o: "outcome r = Succeeded \<or> outcome r = Failed" by simp
    from assms(1,2) n show ?thesis unfolding ps butlast_snoc using o by simp
  qed
qed

lemma generateVideo_cases:
  obtains (rejected) "\<not> truthy img"
  | (submit_threw) err where "truthy img" "generateVideos b = Inl err"
  | (poll_threw) opn err g' es where "truthy img" "generateVideos b = Inr opn"
      "poll_loop opn 0 submitted (getVideosOperation b) = (LoopThrew err, g', es)"
  | (waiting) opn g' es where "truthy img" "generateVideos b = Inr opn"
      "poll_loop opn 0 submitted (getVideosOperation b) = (LoopWaiting, g', es)"
  | (no_link) opn opn' g' es where "truthy img" "generateVideos b = Inr opn"
      "poll_loop opn 0 submitted (getVideosOperation b) = (LoopDone opn', g', es)"
      "\<not> truthy (downloadLink opn')"
  | (fetch_threw) opn opn' g' es err where "truthy img" "generateVideos b = Inr opn"
      "poll_loop opn 0 submitted (getVideosOperation b) = (LoopDone opn', g', es)"
      "truthy (downloadLink opn')" "fetch_blob b = Inl err"
  | (succeeded) opn opn' g' es url where "truthy img" "generateVideos b = Inr opn"
      "poll_loop opn 0 submitted (getVideosOperation b) = (LoopDone opn', g', es)"
      "truthy (downloadLink opn')" "fetch_blob b = Inr url"
proof (cases "truthy img")
  case False
  then show ?thesis by (rule rejected)
next
  case t: True
  show ?thesis
  proof (cases "generateVideos b")
    case (Inl err)
    with t show ?thesis by (rule submit_threw)
  next
    case (Inr opn)
    obtain x g' es where r: "poll_loop opn 0 submitted (getVideosOperation b) = (x, g', es)"
      by (cases "poll_loop opn 0 submitted (getVideosOperation b)") auto
    show ?thesis
    proof (cases x)
      case (LoopDone opn')
      show ?thesis
      proof (cases "truthy (downloadLink opn')")
        case False
        with t Inr r LoopDone show ?thesis by (intro no_link) auto
      next
        case True
        show ?thesis
        proof (cases "fetch_blob b")
          case (Inl err)
          with t Inr r LoopDone True show ?thesis by (intro fetch_threw) auto
        next
          case u: (Inr url)
          with t Inr r LoopDone True show ?thesis by (intro succeeded) auto
        qed
      qed
    next
      case (LoopThrew err)
      with t Inr r show ?thesis by (intro poll_threw) auto
    next
      case LoopWaiting
      with t Inr r show ?thesis by (intro waiting) auto
    qed
  qed
qed

lemma polled_progress:
  assumes "poll_loop opn 0 submitted answers = (x, g', es)"
  shows "sorted (0 # map progress (shown es))"
    and "\<forall>q\<in>set (map progress (shown es)). 0 \<le> q \<and> q \<le> 95"
    and "g' = last (submitted # shown es)"
  using poll_loop_progress [OF assms] by (simp_all add: submitted_fields)

text \<open>
  C6: in every run of the submission, over the progress values of the states it sets, in
  order. The values set while polling (all of them, but for the final state of a run that
  succeeded or failed) are non-decreasing and lie between 0 and 95, so strictly below 100.
  The value 100 is set only by a run that succeeds, as its last state, and only after an
  operation that is done and carries a download link was received from the submission or
  from a poll.
\<close>

theorem progress_monotone_capped:
  "let r = generateVideo img b g;
       ps = map progress (shown (effects r));
       polling = (if outcome r = Succeeded \<or> outcome r = Failed then butlast ps else ps)
   in sorted polling
    \<and> (\<forall>q\<in>set polling. 0 \<le> q \<and> q \<le> 95)
    \<and> (100 \<in> set ps \<longrightarrow>
         outcome r = Succeeded \<and> last ps = 100
         \<and> (\<exists>opn. (generateVideos b = Inr opn \<or> Inr opn \<in> set (getVideosOperation b))
                \<and> op_done opn \<and> truthy (downloadLink opn)))"
proof (cases rule: generateVideo_cases [where img = img and b = b])
  case rejected
  then show ?thesis by (simp add: generateVideo_rejected)
next
  case (submit_threw err)
  have "sorted (0 # map progress (shown []))"
    "\<forall>q\<in>set (map progress (shown [])). 0 \<le> q \<and> q \<le> 95" by simp_all
  from this show ?thesis unfolding Let_def
    by (rule thrown_run_progress [where ?es0.0 = "[CallGenerateVideos]" and err = err
          and g' = submitted])
      (simp_all add: generateVideo_submit_threw [OF submit_threw])
next
  case (poll_threw opn err g' es)
  note p = polled_progress [OF poll_threw(3)]
  from p(1,2) show ?thesis unfolding Let_def
    by (rule thrown_run_progress [where ?es0.0 = "CallGenerateVideos # es" and err = err
          and g' = g'])
      (simp_all add: generateVideo_poll_threw [OF poll_threw])
next
  case (waiting opn g' es)
  note p = polled_progress [OF waiting(3)]
  from p(2) have "100 \<notin> set (map progress (shown es))" by fastforce
  with p waiting show ?thesis
    by (simp add: generateVideo_waiting submitted_fields)
next
  case (no_link opn opn' g' es)
  note p = polled_progress [OF no_link(3)]
  from p(2) have "100 \<notin> set (map progress (shown es))" by fastforce
  with p no_link show ?thesis
    by (simp add: generateVideo_no_link submitted_fields)
next
  case (fetch_threw opn opn' g' es err)
  note p = polled_progress [OF fetch_threw(3)]
  from p(1,2) show ?thesis unfolding Let_def
    by (rule thrown_run_progress
          [where ?es0.0 = "CallGenerateVideos # es @ [CallFetch (the (downloadLink opn'))]"
            and err = err and g' = g'])
      (simp_all add: generateVideo_fetch_threw [OF fetch_threw] shown_append)
next
  case (succeeded opn opn' g' es url)
  note p = polled_progress [OF succeeded(3)]
  from poll_loop_fields [OF succeeded(3)]
  have d: "op_done opn'" "opn' = opn \<or> Inr opn' \<in> set (getVideosOperation b)" by auto
  have ex: "\<exists>opn. (generateVideos b = Inr opn \<or> Inr opn \<in> set (getVideosOperation b))
      \<and> op_done opn \<and> truthy (downloadLink opn)"
    using d succeeded(2,4) by auto
  from p ex succeeded show ?thesis
    by (simp add: generateVideo_succeeded submitted_fields shown_append butlast_append)
qed

lemma slow_run:
  "map progress (shown (effects (generateVideo (Some ''data:image/png;base64,AAAA'') slow_backend idle)))
     = [0, 15, 30, 45, 60, 75, 90, 95, 95]
   \<and> outcome (generateVideo (Some ''data:image/png;base64,AAAA'') slow_backend idle) = Waiting"
  by code_simp

lemma good_run:
  "map progress (shown (effects (generateVideo (Some ''data:image/png;base64,AAAA'') good_backend idle)))
     = [0, 15, 30, 100]
   \<and> outcome (generateVideo (Some ''data:image/png;base64,AAAA'') good_backend idle) = Succeeded"
  by code_simp

theorem progress_monotone_capped_witness:
  "map progress (shown (effects (generateVideo (Some ''data:image/png;base64,AAAA'') slow_backend idle)))
     = [0, 15, 30, 45, 60, 75, 90, 95, 95]
   \<and> outcome (generateVideo (Some ''data:image/png;base64,AAAA'') slow_backend idle) = Waiting
   \<and> map progress (shown (effects (generateVideo (Some ''data:image/png;base64,AAAA'') good_backend idle)))
     = [0, 15, 30, 100]
   \<and> outcome (generateVideo (Some ''data:image/png;base64,AAAA'') good_backend idle) = Succeeded
   \<and> sorted [0, 15, 30, 45, 60, 75, 90, 95, 95 :: int]
   \<and> (\<exists>opn. (generateVideos good_backend = Inr opn \<or> Inr opn \<in> set (getVideosOperation good_backend))
          \<and> op_done opn \<and> truthy (downloadLink opn))"
proof -
  from progress_monotone_capped [of "Some ''data:image/png;base64,AAAA''" slow_backend idle]
  have 1: "sorted [0, 15, 30, 45, 60, 75, 90, 95, 95 :: int]"
    unfolding Let_def by (simp only: slow_run) simp
  from progress_monotone_capped [of "Some ''data:image/png;base64,AAAA''" good_backend idle]
  have 2: "\<exists>opn. (generateVideos good_backend = Inr opn \<or> Inr opn \<in> set (getVideosOperation good_backend))
          \<and> op_done opn \<and> truthy (downloadLink opn)"
    unfolding Let_def by (simp only: good_run) simp
  from 1 2 slow_run good_run show ?thesis by blast
qed

text \<open>
  C7: with no starting image (\<^verbatim>\<open>null\<close>, or the empty string) the submission only raises
  the validation alert: it makes no backend call (no submission, poll or download), sets
  no state, and returns the job state it was called with.
\<close>

theorem no_image_no_submission:
  "generateVideo None b g =
     \<lparr>outcome = Rejected, genState = g,
      effects = [Alert ''Please upload at least one starting image.'']\<rparr>
   \<and> generateVideo (Some []) b g =
     \<lparr>outcome = Rejected, genState = g,
      effects = [Alert ''Please upload at least one starting image.'']\<rparr>"
  by (simp add: generateVideo_rejected truthy_def)

text \<open>
  C8, as amended: for every error thrown by the submission, by a poll or by the download
  whose thrown value is an object with a string message or with no message, the job ends
  failed (not generating, status \<open>Error\<close>, progress 0, no video), and its error is the
  message when that is a non-empty string and the fixed text
  \<open>An unexpected error occurred.\<close> when the message is missing or empty. The credential
  reset is invoked exactly once when the message contains
  \<open>Requested entity was not found.\<close> and not at all otherwise.
\<close>

theorem failure_surfaces_message_and_resets_key_once:
  assumes "truthy img"
    and "msg \<noteq> NonString"
    and "generateVideos b = Inl (JsError msg)
       \<or> (\<exists>opn g' es. generateVideos b = Inr opn
            \<and> poll_loop opn 0 submitted (getVideosOperation b) = (LoopThrew (JsError msg), g', es))
       \<or> (\<exists>opn opn' g' es. generateVideos b = Inr opn
            \<and> poll_loop opn 0 submitted (getVideosOperation b) = (LoopDone opn', g', es)
            \<and> truthy (downloadLink opn') \<and> fetch_blob b = Inl (JsError msg))"
  shows "outcome (generateVideo img b g) = Failed
    \<and> genState (generateVideo img b g) =
        \<lparr>isGenerating = False, status = ''Error'', progress = 0,
         error = Some (case msg of
                         Str m \<Rightarrow> if m = [] then ''An unexpected error occurred.'' else m
                       | _ \<Rightarrow> ''An unexpected error occurred.''),
         videoUrl = None\<rparr>
    \<and> count_list (effects (generateVideo img b g)) OnResetKey =
        (if \<exists>m. msg = Str m \<and> String_includes m ''Requested entity was not found.''
         then 1 else 0)"
proof -
  note c = catch_block_fields [OF assms(2)]
  consider (s) "generateVideos b = Inl (JsError msg)"
    | (p) opn g' es where "generateVideos b = Inr opn"
        "poll_loop opn 0 submitted (getVideosOperation b) = (LoopThrew (JsError msg), g', es)"
    | (f) opn opn' g' es where "generateVideos b = Inr opn"
        "poll_loop opn 0 submitted (getVideosOperation b) = (LoopDone opn', g', es)"
        "truthy (downloadLink opn')" "fetch_blob b = Inl (JsError msg)"
    using assms(3) by blast
  then show ?thesis
  proof cases
    case s
    with assms(1) show ?thesis
      by (simp add: generateVideo_submit_threw c)
  next
    case p
    from poll_loop_fields [OF p(2)] have "count_list es OnResetKey = 0"
      by (simp add: count_list_0_iff)
    with assms(1) p show ?thesis
      by (simp add: generateVideo_poll_threw c)
  next
    case f
    from poll_loop_fields [OF f(2)] have "count_list es OnResetKey = 0"
      by (simp add: count_list_0_iff)
    with assms(1) f show ?thesis
      by (simp add: generateVideo_fetch_threw c)
  qed
qed

lemma entity_run:
  "outcome (generateVideo (Some ''data:image/png;base64,AAAA'') (failing_backend entity_error) idle) = Failed
   \<and> error (genState (generateVideo (Some ''data:image/png;base64,AAAA'') (failing_backend entity_error) idle))
       = Some ''404: Requested entity was not found. Check the key.''
   \<and> count_list (effects (generateVideo (Some ''data:image/png;base64,AAAA'') (failing_backend entity_error) idle))
        OnResetKey = 1
   \<and> truthy (Some ''data:image/png;base64,AAAA'')
   \<and> poll_loop pending 0 submitted (getVideosOperation (failing_backend entity_error))
       = (LoopThrew entity_error,
          \<lparr>isGenerating = True, status = ''Applying temporal coherence...'', progress = 30,
           error = None, videoUrl = None\<rparr>,
          [Sleep,
           SetGenState \<lparr>isGenerating = True, status = ''Synthesizing background textures...'',
                        progress = 15, error = None, videoUrl = None\<rparr>,
           CallGetVideosOperation, Sleep,
           SetGenState \<lparr>isGenerating = True, status = ''Applying temporal coherence...'',
                        progress = 30, error = None, videoUrl = None\<rparr>,
           CallGetVideosOperation])"
  by code_simp

theorem failure_surfaces_message_and_resets_key_once_witness:
  "truthy (Some ''data:image/png;base64,AAAA'')
   \<and> generateVideos (failing_backend entity_error) = Inr pending
   \<and> outcome (generateVideo (Some ''data:image/png;base64,AAAA'') (failing_backend entity_error) idle) = Failed
   \<and> error (genState (generateVideo (Some ''data:image/png;base64,AAAA'') (failing_backend entity_error) idle))
       = Some ''404: Requested entity was not found. Check the key.''
   \<and> count_list (effects (generateVideo (Some ''data:image/png;base64,AAAA'') (failing_backend entity_error) idle))
        OnResetKey = 1"
proof -
  have t: "truthy (Some ''data:image/png;base64,AAAA'')" by (simp add: truthy_def)
  have g: "generateVideos (failing_backend entity_error) = Inr pending"
    by (simp add: failing_backend_def)
  from entity_run have p: "poll_loop pending 0 submitted (getVideosOperation (failing_backend entity_error))
       = (LoopThrew entity_error,
          \<lparr>isGenerating = True, status = ''Applying temporal coherence...'', progress = 30,
           error = None, videoUrl = None\<rparr>,
          [Sleep,
           SetGenState \<lparr>isGenerating = True, status = ''Synthesizing background textures...'',
                        progress = 15, error = None, videoUrl = None\<rparr>,
           CallGetVideosOperation, Sleep,
           SetGenState \<lparr>isGenerating = True, status = ''Applying temporal coherence...'',
                        progress = 30, error = None, videoUrl = None\<rparr>,
           CallGetVideosOperation])" by blast
  have e: "entity_error = JsError (Str ''404: Requested entity was not found. Check the key.'')"
    by (simp add: entity_error_def)
  have n: "Str ''404: Requested entity was not found. Check the key.'' \<noteq> NonString" by simp
  have r: "generateVideos (failing_backend entity_error)
         = Inl (JsError (Str ''404: Requested entity was not found. Check the key.''))
       \<or> (\<exists>opn g' es. generateVideos (failing_backend entity_error) = Inr opn
            \<and> poll_loop opn 0 submitted (getVideosOperation (failing_backend entity_error))
                = (LoopThrew (JsError (Str ''404: Requested entity was not found. Check the key.'')),
                   g', es))
       \<or> (\<exists>opn opn' g' es. generateVideos (failing_backend entity_error) = Inr opn
            \<and> poll_loop opn 0 submitted (getVideosOperation (failing_backend entity_error))
                = (LoopDone opn', g', es)
            \<and> truthy (downloadLink opn')
            \<and> fetch_blob (failing_backend entity_error)
                = Inl (JsError (Str ''404: Requested entity was not found. Check the key.'')))"
    using g p unfolding e by blast
  from failure_surfaces_message_and_resets_key_once [OF t n r, of idle] entity_run t g
  show ?thesis by blast
qed

text \<open>
  C8 as stated fails for a thrown value whose message is empty: the job's error is then
  the fixed fallback text, not the raw message.
\<close>

theorem raw_message_not_always_surfaced:
  "error (genState (generateVideo (Some ''data:image/png;base64,AAAA'')
       (failing_backend (JsError (Str []))) idle))
     = Some ''An unexpected error occurred.''
   \<and> error (genState (generateVideo (Some ''data:image/png;base64,AAAA'')
       (failing_backend (JsError (Str []))) idle))
     \<noteq> Some []"
  by code_simp

text \<open>
  For comparison, a poll that throws \<^verbatim>\<open>null\<close>: the \<^verbatim>\<open>catch\<close> block throws in turn, and
  the job is left generating in the last state set while polling.
\<close>

lemma nullish_run:
  "generateVideo (Some ''data:image/png;base64,AAAA'') (failing_backend Nullish) idle
     = \<lparr>outcome = CatchThrew,
        genState = \<lparr>isGenerating = True, status = ''Applying temporal coherence...'',
                     progress = 30, error = None, videoUrl = None\<rparr>,
        effects =
          [SetGenState \<lparr>isGenerating = True, status = ''Analyzing your frames...'',
                        progress = 0, error = None, videoUrl = None\<rparr>,
           CallGenerateVideos, Sleep,
           SetGenState \<lparr>isGenerating = True, status = ''Synthesizing background textures...'',
                        progress = 15, error = None, videoUrl = None\<rparr>,
           CallGetVideosOperation, Sleep,
           SetGenState \<lparr>isGenerating = True, status = ''Applying temporal coherence...'',
                        progress = 30, error = None, videoUrl = None\<rparr>,
           CallGetVideosOperation, ConsoleError]\<rparr>"
  by code_simp

text \<open>
  C10: when the loop leaves with an operation that is done but whose download link is
  missing (or empty), the run returns without any effect after the loop: the job state is
  the last one set while polling, every state set in the run is generating with no error
  and no video and a progress between 0 and 95, and the run neither succeeds nor fails.
\<close>

theorem done_without_link_leaves_job_generating:
  assumes "truthy img" "generateVideos b = Inr opn"
    and "poll_loop opn 0 submitted (getVideosOperation b) = (LoopDone opn', g', es)"
    and "\<not> truthy (downloadLink opn')"
  shows "outcome (generateVideo img b g) = ReturnedSilently
    \<and> effects (generateVideo img b g) = SetGenState submitted # CallGenerateVideos # es
    \<and> genState (generateVideo img b g) = last (shown (effects (generateVideo img b g)))
    \<and> (\<forall>s\<in>set (shown (effects (generateVideo img b g))).
          isGenerating s \<and> error s = None \<and> videoUrl s = None
          \<and> 0 \<le> progress s \<and> progress s \<le> 95)"
proof -
  note p = polled_progress [OF assms(3)]
  note f = poll_loop_fields [OF assms(3)]
  from f have "\<forall>s\<in>set (shown es). isGenerating s \<and> error s = None \<and> videoUrl s = None"
    by (simp add: submitted_fields)
  with p show ?thesis
    by (simp add: generateVideo_no_link [OF assms] submitted_fields)
qed

lemma unlinked_run:
  "poll_loop pending 0 submitted (getVideosOperation unlinked_backend)
     = (LoopDone (finished_with None),
        \<lparr>isGenerating = True, status = ''Applying temporal coherence...'', progress = 30,
         error = None, videoUrl = None\<rparr>,
        [Sleep,
         SetGenState \<lparr>isGenerating = True, status = ''Synthesizing background textures...'',
                      progress = 15, error = None, videoUrl = None\<rparr>,
         CallGetVideosOperation, Sleep,
         SetGenState \<lparr>isGenerating = True, status = ''Applying temporal coherence...'',
                      progress = 30, error = None, videoUrl = None\<rparr>,
         CallGetVideosOperation])
   \<and> \<not> truthy (downloadLink (finished_with None))
   \<and> genState (generateVideo (Some ''data:image/png;base64,AAAA'') unlinked_backend idle)
     = \<lparr>isGenerating = True, status = ''Applying temporal coherence...'', progress = 30,
        error = None, videoUrl = None\<rparr>"
  by code_simp

theorem done_without_link_leaves_job_generating_witness:
  "truthy (Some ''data:image/png;base64,AAAA'')
   \<and> generateVideos unlinked_backend = Inr pending
   \<and> \<not> truthy (downloadLink (finished_with None))
   \<and> outcome (generateVideo (Some ''data:image/png;base64,AAAA'') unlinked_backend idle)
       = ReturnedSilently
   \<and> genState (generateVideo (Some ''data:image/png;base64,AAAA'') unlinked_backend idle)
     = \<lparr>isGenerating = True, status = ''Applying temporal coherence...'', progress = 30,
        error = None, videoUrl = None\<rparr>"
proof -
  have t: "truthy (Some ''data:image/png;base64,AAAA'')" by (simp add: truthy_def)
  have g: "generateVideos unlinked_backend = Inr pending"
    by (simp add: unlinked_backend_def)
  from unlinked_run have p: "poll_loop pending 0 submitted (getVideosOperation unlinked_backend)
     = (LoopDone (finished_with None),
        \<lparr>isGenerating = True, status = ''Applying temporal coherence...'', progress = 30,
         error = None, videoUrl = None\<rparr>,
        [Sleep,
         SetGenState \<lparr>isGenerating = True, status = ''Synthesizing background textures...'',
                      progress = 15, error = None, videoUrl = None\<rparr>,
         CallGetVideosOperation, Sleep,
         SetGenState \<lparr>isGenerating = True, status = ''Applying temporal coherence...'',
                      progress = 30, error = None, videoUrl = None\<rparr>,
         CallGetVideosOperation])"
    and n: "\<not> truthy (downloadLink (finished_with None))" by blast+
  from done_without_link_leaves_job_generating [OF t g p n, of idle] unlinked_run t g
  show ?thesis by blast
qed

end
